theory Spec2Isabelle
  imports Complex_Main
begin

section \<open>The order service of the delivery dashboard (services/api.ts)\<close>

text \<open>
  The theory embeds \<^verbatim>\<open>src/services/api.ts\<close>: the generator of the synthetic orders,
  the class \<^verbatim>\<open>SwiftTrackService\<close> with its private methods \<^verbatim>\<open>getHeaders\<close>, \<^verbatim>\<open>request\<close>
  and \<^verbatim>\<open>mockResponse\<close>, and its five public methods.

  Conventions of the embedding.
  \<^item> A JavaScript string is a \<open>string\<close> of HOL, a list of 8-bit characters (the UTF-8
    bytes of the text). \<^verbatim>\<open>toLowerCase\<close> maps the letters A-Z; text outside ASCII is left
    as it is.
  \<^item> A JavaScript number that counts or indexes is a \<open>nat\<close> or an \<open>int\<close>; the value
    \<^verbatim>\<open>NaN\<close>, which \<^verbatim>\<open>parseInt\<close> can return, is \<open>None\<close> of \<open>int option\<close>. An array has
    fewer than \<open>2^32\<close> elements; a list of HOL has no such bound, and a property that
    needs it says so.
  \<^item> The page a caller passes is a number (\<open>js_number\<close>): an integer, or any other
    number, which is given by the text \<^verbatim>\<open>toString\<close> prints for it, the one thing the
    service does with a page.
  \<^item> \<^verbatim>\<open>Math.random()\<close> reads a global generator. Its future results are a sequence
    \<open>nat \<Rightarrow> nat\<close> of draws carried in the state; a draw \<open>d\<close> stands for the double
    \<open>(d mod 2^53) / 2^53\<close> of the interval from 0 (included) to 1 (excluded). Its
    product with an integer is rounded to the nearest double, as the processor does.
  \<^item> A thrown exception is the \<open>Inl\<close> of a sum; an \<^verbatim>\<open>async\<close> method is the function
    from the state before the call to its outcome and the state after it. The delay of
    600 ms in mock mode has no counterpart.
  \<^item> The network and the browser window are parameters (\<open>env\<close>): what \<^verbatim>\<open>fetch\<close>
    answers to a call, and \<^verbatim>\<open>window.location.protocol\<close>.
\<close>

subsection \<open>Strings\<close>

definition toLowerCase :: "string \<Rightarrow> string" where
  "toLowerCase s =
     map (\<lambda>c. case map_of (zip ''ABCDEFGHIJKLMNOPQRSTUVWXYZ'' ''abcdefghijklmnopqrstuvwxyz'') c of
                 Some d \<Rightarrow> d
               | None \<Rightarrow> c) s"

definition startsWith :: "string \<Rightarrow> string \<Rightarrow> bool" where
  "startsWith s p = (take (length p) s = p)"

text \<open>\<^verbatim>\<open>s.includes(t)\<close>: \<open>t\<close> occurs in \<open>s\<close> as a contiguous piece.\<close>

fun includes_str :: "string \<Rightarrow> string \<Rightarrow> bool" where
  "includes_str [] t = (t = [])"
| "includes_str (c # cs) t = (startsWith (c # cs) t \<or> includes_str cs t)"

definition padStart :: "nat \<Rightarrow> char \<Rightarrow> string \<Rightarrow> string" where
  "padStart n c s = replicate (n - length s) c @ s"

definition digit_char :: "nat \<Rightarrow> char" where
  "digit_char d = ''0123456789'' ! d"

text \<open>The decimal text of a number, as \<^verbatim>\<open>String(n)\<close>, \<^verbatim>\<open>n.toString()\<close> and a template
  literal produce it for an integer.\<close>

fun string_of_nat :: "nat \<Rightarrow> string" where
  "string_of_nat n =
     (if n < 10 then [digit_char n] else string_of_nat (n div 10) @ [digit_char (n mod 10)])"

declare string_of_nat.simps [simp del]

definition string_of_int :: "int \<Rightarrow> string" where
  "string_of_int i = (if i < 0 then CHR ''-'' # string_of_nat (nat (- i)) else string_of_nat (nat i))"

text \<open>\<^verbatim>\<open>n.toString()\<close> for a number. An integer below \<open>10^21\<close> in magnitude is printed
  in decimal; from \<open>10^21\<close> on the text is in exponent notation, one digit, the further
  digits after a point, and the exponent: \<^verbatim>\<open>1e+21\<close>, \<^verbatim>\<open>1.5e+21\<close>. The digits are those of
  the integer, which are the ones JavaScript prints when the integer is safe (below
  \<open>2^53\<close> in magnitude) and when it is \<open>s * 10^j\<close> with \<open>s * 5^j < 2^53\<close>, as \<open>10^21\<close>
  is; for another integer between \<open>2^53\<close> and \<open>10^21\<close> that is a number, JavaScript may
  print other digits, which \<^verbatim>\<open>parseInt\<close> reads back as the same number. A number that is
  no integer (\<^verbatim>\<open>3.5\<close>, \<^verbatim>\<open>NaN\<close>, \<^verbatim>\<open>Infinity\<close>) is \<open>Other t\<close>, with \<open>t\<close> its text.\<close>

definition exponent_text :: "nat \<Rightarrow> string" where
  "exponent_text m =
     (let ds = string_of_nat m;
          fraction = rev (dropWhile (\<lambda>c. c = CHR ''0'') (rev (drop 1 ds)))
      in take 1 ds @ (if fraction = [] then [] else CHR ''.'' # fraction)
         @ ''e+'' @ string_of_nat (length ds - 1))"

datatype js_number = Integer int | Other string

fun Number_toString :: "js_number \<Rightarrow> string" where
  "Number_toString (Integer n) =
     (if \<bar>n\<bar> < 10 ^ 21 then string_of_int n
      else (if n < 0 then ''-'' else []) @ exponent_text (nat \<bar>n\<bar>))"
| "Number_toString (Other t) = t"

text \<open>\<^verbatim>\<open>s.replace(/\/$/, '')\<close> removes one slash at the end of \<open>s\<close>.\<close>

definition strip_trailing_slash :: "string \<Rightarrow> string" where
  "strip_trailing_slash s = (if s \<noteq> [] \<and> last s = CHR ''/'' then butlast s else s)"

text \<open>\<^verbatim>\<open>x || d\<close> for a string \<open>x\<close> that may be \<^verbatim>\<open>null\<close>: the empty string is falsy.\<close>

definition or_default :: "string option \<Rightarrow> string \<Rightarrow> string" where
  "or_default x d = (case x of None \<Rightarrow> d | Some s \<Rightarrow> if s = [] then d else s)"

subsection \<open>parseInt\<close>

definition is_js_space :: "char \<Rightarrow> bool" where
  "is_js_space c = (c \<in> set [CHR 0x09, CHR 0x0A, CHR 0x0B, CHR 0x0C, CHR 0x0D, CHR '' ''])"

text \<open>The value of a digit in a radix up to 16; 36 for a character that is no digit.\<close>

definition digit_val :: "char \<Rightarrow> nat" where
  "digit_val c =
     (case map_of (zip ''0123456789abcdefABCDEF''
                       [0, 1, 2, 3, 4, 5, 6, 7, 8, 9, 10, 11, 12, 13, 14, 15, 10, 11, 12, 13, 14, 15]) c of
        Some v \<Rightarrow> v
      | None \<Rightarrow> 36)"

definition digits_val :: "nat \<Rightarrow> string \<Rightarrow> nat" where
  "digits_val radix ds = foldl (\<lambda>a c. a * radix + digit_val c) 0 ds"

text \<open>\<^verbatim>\<open>parseInt(s)\<close> with no radix: white space is skipped, a sign is read, a prefix
  \<^verbatim>\<open>0x\<close> selects radix 16, the longest run of digits is the value, and no digit at all
  gives \<^verbatim>\<open>NaN\<close>.\<close>

definition parseInt :: "string \<Rightarrow> int option" where
  "parseInt s =
     (let t = dropWhile is_js_space s;
          neg = startsWith t ''-'';
          u = (if startsWith t ''-'' \<or> startsWith t ''+'' then drop 1 t else t);
          hex = (startsWith u ''0x'' \<or> startsWith u ''0X'');
          radix = (if hex then 16 else 10);
          v = (if hex then drop 2 u else u);
          ds = takeWhile (\<lambda>c. digit_val c < radix) v
      in if ds = [] then None
         else Some ((if neg then - 1 else 1) * int (digits_val radix ds)))"

subsection \<open>Query strings: URLSearchParams and URL\<close>

text \<open>\<^verbatim>\<open>URLSearchParams.toString()\<close> is the application/x-www-form-urlencoded
  serialiser: letters, digits and \<^verbatim>\<open>* - . _\<close> stay, a space becomes \<^verbatim>\<open>+\<close>, every other
  byte becomes \<^verbatim>\<open>%XX\<close>.\<close>

definition is_alnum :: "char \<Rightarrow> bool" where
  "is_alnum c =
     (c \<in> set ''ABCDEFGHIJKLMNOPQRSTUVWXYZabcdefghijklmnopqrstuvwxyz0123456789'')"

definition hex_char :: "nat \<Rightarrow> char" where
  "hex_char d = ''0123456789ABCDEF'' ! d"

definition encode_byte :: "char \<Rightarrow> string" where
  "encode_byte c =
     (if is_alnum c \<or> c \<in> set ''*-._'' then [c]
      else if c = CHR '' '' then ''+''
      else [CHR ''%'', hex_char (of_char c div 16), hex_char (of_char c mod 16)])"

definition form_encode :: "string \<Rightarrow> string" where
  "form_encode s = concat (map encode_byte s)"

fun join_amp :: "string list \<Rightarrow> string" where
  "join_amp [] = []"
| "join_amp [x] = x"
| "join_amp (x # y # ys) = x @ ''&'' @ join_amp (y # ys)"

definition URLSearchParams_toString :: "(string \<times> string) list \<Rightarrow> string" where
  "URLSearchParams_toString params =
     join_amp (map (\<lambda>(k, v). form_encode k @ ''='' @ form_encode v) params)"

text \<open>\<^verbatim>\<open>new URL(endpoint, 'http://mock.local').searchParams\<close>, for an endpoint that
  starts with a path: the URL parser drops control characters and spaces at both ends and
  every tab and newline, the fragment starts at the first \<^verbatim>\<open>#\<close>, the query is what follows
  the first \<^verbatim>\<open>?\<close> before the fragment, and the form-urlencoded parser splits the query at \<^verbatim>\<open>&\<close>, each piece
  at its first \<^verbatim>\<open>=\<close>, turns \<^verbatim>\<open>+\<close> into a space and decodes \<^verbatim>\<open>%XX\<close>.\<close>

definition is_c0_or_space :: "char \<Rightarrow> bool" where
  "is_c0_or_space c = ((of_char c :: nat) \<le> 32)"

definition url_clean :: "string \<Rightarrow> string" where
  "url_clean s =
     filter (\<lambda>c. c \<notin> set [CHR 0x09, CHR 0x0A, CHR 0x0D])
       (rev (dropWhile is_c0_or_space (rev (dropWhile is_c0_or_space s))))"

definition url_query :: "string \<Rightarrow> string" where
  "url_query endpoint =
     drop 1 (dropWhile (\<lambda>c. c \<noteq> CHR ''?'') (takeWhile (\<lambda>c. c \<noteq> CHR ''#'') (url_clean endpoint)))"

fun split_on :: "char \<Rightarrow> string \<Rightarrow> string list" where
  "split_on d [] = [[]]"
| "split_on d (c # cs) =
     (if c = d then [] # split_on d cs
      else (case split_on d cs of
              [] \<Rightarrow> [[c]]
            | p # ps \<Rightarrow> (c # p) # ps))"

fun percent_decode :: "string \<Rightarrow> string" where
  "percent_decode (c # h # l # cs) =
     (if c = CHR ''%'' \<and> digit_val h < 16 \<and> digit_val l < 16
      then char_of (16 * digit_val h + digit_val l) # percent_decode cs
      else c # percent_decode (h # l # cs))"
| "percent_decode cs = cs"

definition form_decode :: "string \<Rightarrow> string" where
  "form_decode s = percent_decode (map (\<lambda>c. if c = CHR ''+'' then CHR '' '' else c) s)"

definition parse_pair :: "string \<Rightarrow> string \<times> string" where
  "parse_pair p =
     (form_decode (takeWhile (\<lambda>c. c \<noteq> CHR ''='') p),
      form_decode (drop 1 (dropWhile (\<lambda>c. c \<noteq> CHR ''='') p)))"

definition searchParams :: "string \<Rightarrow> (string \<times> string) list" where
  "searchParams endpoint =
     map parse_pair (filter (\<lambda>p. p \<noteq> []) (split_on CHR ''&'' (url_query endpoint)))"

text \<open>\<^verbatim>\<open>searchParams.get(name)\<close>: the first value under the name, or \<^verbatim>\<open>null\<close>.\<close>

definition searchParams_get :: "(string \<times> string) list \<Rightarrow> string \<Rightarrow> string option" where
  "searchParams_get ps n = map_of ps n"

subsection \<open>Array.prototype.slice and Math\<close>

text \<open>\<^verbatim>\<open>xs.slice(start, end)\<close>: a negative index counts from the end, and both indices
  are clamped to the array.\<close>

definition slice :: "'a list \<Rightarrow> int \<Rightarrow> int \<Rightarrow> 'a list" where
  "slice xs start end' =
     (let len = int (length xs);
          k = (if start < 0 then max (len + start) 0 else min start len);
          fin = (if end' < 0 then max (len + end') 0 else min end' len)
      in take (nat (fin - k)) (drop (nat k) xs))"

text \<open>\<^verbatim>\<open>Math.ceil(a / b)\<close>.\<close>

definition ceil_div :: "nat \<Rightarrow> nat \<Rightarrow> int" where
  "ceil_div a b = \<lceil>real a / real b\<rceil>"

text \<open>The number of binary digits of a number, and the rounding of a product to a double.
  The argument \<open>x\<close> stands for the real number \<open>x / 2^53\<close>; a double has 53 significant
  binary digits, so a longer \<open>x\<close> is rounded to the nearest multiple of the power of two
  that cuts it to 53 digits, and a tie goes to the even one.\<close>

fun bit_length :: "nat \<Rightarrow> nat" where
  "bit_length n = (if n = 0 then 0 else Suc (bit_length (n div 2)))"

declare bit_length.simps [simp del]

definition round_to_double :: "nat \<Rightarrow> nat" where
  "round_to_double x =
     (if x < 2 ^ 53 then x
      else (let k = bit_length x - 53;
                q = x div 2 ^ k;
                r = x mod 2 ^ k;
                half = 2 ^ (k - 1)
            in (if half < r \<or> (r = half \<and> odd q) then q + 1 else q) * 2 ^ k))"

text \<open>\<^verbatim>\<open>Math.floor(Math.random() * n)\<close> and \<^verbatim>\<open>Math.random() > 0.5\<close> at the draw \<open>d\<close>: the
  floor is taken of the rounded product.\<close>

definition floor_random :: "nat \<Rightarrow> nat \<Rightarrow> nat" where
  "floor_random n d = round_to_double (d mod 2 ^ 53 * n) div 2 ^ 53"

definition random_gt_half :: "nat \<Rightarrow> bool" where
  "random_gt_half d = (2 ^ 52 < d mod 2 ^ 53)"

subsection \<open>The data model\<close>

text \<open>The records follow the interfaces the service uses. A field whose name is taken
  already carries a mark: \<open>id'\<close>, \<open>method'\<close>, \<open>error_message\<close> (the \<^verbatim>\<open>message\<close> of an
  exception) and \<open>new_tracking_code\<close> (the \<^verbatim>\<open>tracking_code\<close> of the answer to
  \<^verbatim>\<open>addOrder\<close>).\<close>

record order =
  id' :: nat
  tracking_code :: string
  buyer_name :: string
  phone :: string
  address :: string
  police_station :: string
  amount :: string
  rider_name :: string
  rider_phone :: string
  estimated_delivery :: string
  delivery_partner :: string
  latest_status :: string
  last_update :: string

record app_config =
  delivery_partners :: "string list"
  quick_statuses :: "string list"

record pagination_info =
  current_page :: "int option"
  total_pages :: int
  total_items :: nat

record orders_response =
  orders :: "order list"
  pagination :: pagination_info

record update_result =
  success :: bool
  message :: string

record add_result = update_result +
  new_tracking_code :: string
  order_id :: nat

text \<open>What a call resolves to. \<open>Json\<close> is the body of a real response, as
  \<^verbatim>\<open>response.json()\<close> gives it; the service does not look into it.\<close>

datatype api_value =
  Config app_config
| Orders orders_response
| Added add_result
| Updated update_result
| Json string

text \<open>An exception object with its \<^verbatim>\<open>name\<close> and \<^verbatim>\<open>message\<close>; \<open>Error m\<close> is
  \<^verbatim>\<open>new Error(m)\<close>.\<close>

datatype js_error = Exception (name: string) (error_message: string)

definition Error :: "string \<Rightarrow> js_error" where
  "Error m = Exception ''Error'' m"

record settings =
  baseUrl :: string
  apiKey :: "string option"
  useMock :: bool

record request_init =
  method' :: "string option"
  body :: "string option"
  headers :: "(string \<rightharpoonup> string) option"

record fetch_call =
  url :: string
  init :: request_init

record response =
  status :: nat
  statusText :: string
  json :: "js_error + string"

text \<open>\<^verbatim>\<open>response.ok\<close> is true exactly for a status from 200 to 299.\<close>

definition ok :: "response \<Rightarrow> bool" where
  "ok r = (200 \<le> status r \<and> status r \<le> 299)"

datatype fetch_outcome = Resolved response | Rejected js_error

record env =
  location_protocol :: string
  fetch :: "fetch_call \<Rightarrow> fetch_outcome"

text \<open>The state a call can read and change: the module's array of synthetic orders, the
  draws \<^verbatim>\<open>Math.random\<close> will return, and the calls made to \<^verbatim>\<open>fetch\<close> so far.\<close>

record world =
  MOCK_ORDERS :: "order list"
  random :: "nat \<Rightarrow> nat"
  fetched :: "fetch_call list"

subsection \<open>The synthetic orders\<close>

definition partners :: "string list" where
  "partners = [''RedX'', ''Steadfast'', ''Pathao'', ''Paperfly'']"

definition statuses :: "string list" where
  "statuses = [''Picked'', ''In Transit'', ''Out for Delivery'', ''Delivered'', ''Cancelled'']"

text \<open>The order built for index \<open>i\<close>; \<open>r\<close> gives the seven draws of the object literal,
  in the order of its properties.\<close>

definition mock_order :: "nat \<Rightarrow> (nat \<Rightarrow> nat) \<Rightarrow> order" where
  "mock_order i r =
     \<lparr> id' = i + 1,
       tracking_code = ''ST-'' @ string_of_nat (8000 + i),
       buyer_name = ''Customer '' @ string_of_nat (i + 1),
       phone = ''017'' @ padStart 8 CHR ''0'' (string_of_nat i),
       address = ''House '' @ string_of_nat (i + 1) @ '', Road '' @
                 string_of_nat (floor_random 20 (r 0)) @ '', Dhaka'',
       police_station = [''Gulshan'', ''Banani'', ''Dhanmondi'', ''Mirpur''] ! floor_random 4 (r 1),
       amount = string_of_nat (500 + floor_random 2000 (r 2)) @ '' BDT'',
       rider_name = (if random_gt_half (r 3) then ''Rider '' @ string_of_nat (i + 1) else ''''),
       rider_phone = (if random_gt_half (r 4) then ''018...'' else ''''),
       estimated_delivery = ''2025-12-10'',
       delivery_partner = partners ! floor_random (length partners) (r 5),
       latest_status = statuses ! floor_random (length statuses) (r 6),
       last_update = ''2025-12-07 10:30:00'' \<rparr>"

definition generateMockOrders :: "nat \<Rightarrow> (nat \<Rightarrow> nat) \<Rightarrow> order list" where
  "generateMockOrders count rnd = map (\<lambda>i. mock_order i (\<lambda>j. rnd (7 * i + j))) [0..<count]"

text \<open>The module is loaded: \<^verbatim>\<open>MOCK_ORDERS = generateMockOrders(45)\<close> uses the first
  315 draws.\<close>

definition module_init :: "(nat \<Rightarrow> nat) \<Rightarrow> world" where
  "module_init rnd =
     \<lparr> MOCK_ORDERS = generateMockOrders 45 rnd,
       random = (\<lambda>k. rnd (7 * 45 + k)),
       fetched = [] \<rparr>"

definition MOCK_CONFIG :: app_config where
  "MOCK_CONFIG =
     \<lparr> delivery_partners = [''RedX'', ''Steadfast'', ''Pathao'', ''Paperfly'', ''E-Courier'', ''In-House''],
       quick_statuses = [''Picked'', ''In Transit'', ''Out for Delivery'', ''Delivered'', ''Cancelled'',
                         ''Returned''] \<rparr>"

subsection \<open>The mock responder\<close>

text \<open>The test of the search filter on one order; \<open>search\<close> is already in lower case.\<close>

definition search_hit :: "string \<Rightarrow> order \<Rightarrow> bool" where
  "search_hit search o' =
     (includes_str (toLowerCase (buyer_name o')) search \<or>
      includes_str (phone o') search \<or>
      includes_str (toLowerCase (tracking_code o')) search)"

text \<open>The three filters of the orders branch, each applied when its parameter is not
  empty.\<close>

definition filteredOrders :: "order list \<Rightarrow> string \<Rightarrow> string \<Rightarrow> string \<Rightarrow> order list" where
  "filteredOrders all_orders search partner status' =
     (let f1 = (if search \<noteq> [] then filter (search_hit search) all_orders else all_orders);
          f2 = (if partner \<noteq> [] then filter (\<lambda>o'. delivery_partner o' = partner) f1 else f1);
          f3 = (if status' \<noteq> [] then filter (\<lambda>o'. latest_status o' = status') f2 else f2)
      in f3)"

text \<open>The page cut out of the filtered orders. With a page that is \<^verbatim>\<open>NaN\<close> both
  bounds of the slice are \<^verbatim>\<open>NaN\<close>, which \<^verbatim>\<open>slice\<close> reads as 0.\<close>

definition paginate :: "order list \<Rightarrow> int option \<Rightarrow> orders_response" where
  "paginate filtered page =
     (let limit = 20;
          paginatedOrders =
            (case page of
               None \<Rightarrow> slice filtered 0 0
             | Some p \<Rightarrow> slice filtered ((p - 1) * limit) ((p - 1) * limit + limit));
          totalPages = ceil_div (length filtered) (nat limit)
      in \<lparr> orders = paginatedOrders,
           pagination = \<lparr> current_page = page,
                          total_pages = (if totalPages = 0 then 1 else totalPages),
                          total_items = length filtered \<rparr> \<rparr>)"

definition mockResponse :: "string \<Rightarrow> request_init \<Rightarrow> world \<Rightarrow> (js_error + api_value) \<times> world" where
  "mockResponse endpoint options w =
     (if endpoint = ''/app-config'' then (Inr (Config MOCK_CONFIG), w)
      else if startsWith endpoint ''/orders'' then
        (let params = searchParams endpoint;
             page = parseInt (or_default (searchParams_get params ''page'') ''1'');
             search = toLowerCase (or_default (searchParams_get params ''search'') '''');
             partner = or_default (searchParams_get params ''delivery_partner'') '''';
             status' = or_default (searchParams_get params ''status'') ''''
         in (Inr (Orders (paginate (filteredOrders (MOCK_ORDERS w) search partner status') page)), w))
      else if endpoint = ''/add-order'' then
        (Inr (Added \<lparr> success = True,
                      message = ''Order created successfully (Mock)'',
                      new_tracking_code = ''MOCK-'' @ string_of_nat (floor_random 1000 (random w 0)),
                      order_id = floor_random 10000 (random w 1) \<rparr>),
         w\<lparr> random := (\<lambda>k. random w (k + 2)) \<rparr>)
      else if endpoint = ''/update-status'' \<or> endpoint = ''/update-details'' then
        (Inr (Updated \<lparr> success = True, message = ''Updated successfully (Mock)'' \<rparr>), w)
      else (Inl (Error ''Mock endpoint not found''), w))"

subsection \<open>The service class\<close>

definition getHeaders :: "settings \<Rightarrow> bool \<Rightarrow> (string \<rightharpoonup> string)" where
  "getHeaders st requireAuth =
     (let hs = [''Content-Type'' \<mapsto> ''application/json'']
      in (case apiKey st of
            Some k \<Rightarrow> if requireAuth \<and> k \<noteq> [] then hs(''X-FBBOT-API-KEY'' \<mapsto> k) else hs
          | None \<Rightarrow> hs))"

text \<open>The \<^verbatim>\<open>catch\<close> block of \<^verbatim>\<open>request\<close>: what is thrown again for the exception \<open>e\<close>
  caught while the URL \<open>u\<close> was being fetched.\<close>

definition on_catch :: "env \<Rightarrow> string \<Rightarrow> js_error \<Rightarrow> js_error" where
  "on_catch ev u e =
     (if name e = ''TypeError'' \<and> error_message e = ''Failed to fetch'' then
        (if location_protocol ev = ''https:'' \<and> startsWith u ''http:''
         then Error ''Security Error: Cannot connect to an HTTP server from an HTTPS app. Your WordPress site must use HTTPS.''
         else Error ''Network request blocked. This is likely a CORS issue on your WordPress site.'')
      else e)"

definition request ::
  "env \<Rightarrow> settings \<Rightarrow> string \<Rightarrow> request_init \<Rightarrow> bool \<Rightarrow> world \<Rightarrow> (js_error + api_value) \<times> world" where
  "request ev st endpoint options requireAuth w =
     (if useMock st then mockResponse endpoint options w
      else if baseUrl st = [] \<or> includes_str (baseUrl st) ''your-wordpress-site.com'' then
        (Inl (Error ''Invalid API URL. Please configure a real WordPress URL.''), w)
      else
        (let u = strip_trailing_slash (baseUrl st) @ endpoint;
             call = \<lparr> url = u,
                      init = options\<lparr> headers :=
                        Some (getHeaders st requireAuth ++
                              (case headers options of None \<Rightarrow> Map.empty | Some h \<Rightarrow> h)) \<rparr> \<rparr>;
             w' = w\<lparr> fetched := fetched w @ [call] \<rparr>
         in (case fetch ev call of
               Rejected e \<Rightarrow> (Inl (on_catch ev u e), w')
             | Resolved r \<Rightarrow>
                 if \<not> ok r then
                   (if status r = 401 then (Inl (on_catch ev u (Error ''Invalid API Key'')), w')
                    else if status r = 404 then
                      (Inl (on_catch ev u (Error ''Endpoint not found. Check your WordPress URL.'')), w')
                    else
                      (Inl (on_catch ev u
                             (Error (''API Error: '' @ string_of_nat (status r) @ '' '' @ statusText r))),
                       w'))
                 else (case json r of
                         Inl e \<Rightarrow> (Inl e, w')
                       | Inr v \<Rightarrow> (Inr (Json v), w')))))"

text \<open>The public methods. A payload is given by its JSON text, the result of
  \<^verbatim>\<open>JSON.stringify(data)\<close>.\<close>

definition getConfig :: "env \<Rightarrow> settings \<Rightarrow> world \<Rightarrow> (js_error + api_value) \<times> world" where
  "getConfig ev st w =
     request ev st ''/app-config'' \<lparr> method' = Some ''GET'', body = None, headers = None \<rparr> False w"

definition getOrders ::
  "env \<Rightarrow> settings \<Rightarrow> js_number \<Rightarrow> string \<Rightarrow> string \<Rightarrow> string \<Rightarrow> world \<Rightarrow> (js_error + api_value) \<times> world" where
  "getOrders ev st page search partner status' w =
     (let params = [(''page'', Number_toString page)]
                   @ (if search \<noteq> [] then [(''search'', search)] else [])
                   @ (if partner \<noteq> [] then [(''delivery_partner'', partner)] else [])
                   @ (if status' \<noteq> [] then [(''status'', status')] else [])
      in request ev st (''/orders?'' @ URLSearchParams_toString params)
           \<lparr> method' = Some ''GET'', body = None, headers = None \<rparr> True w)"

definition addOrder :: "env \<Rightarrow> settings \<Rightarrow> string \<Rightarrow> world \<Rightarrow> (js_error + api_value) \<times> world" where
  "addOrder ev st data w =
     request ev st ''/add-order'' \<lparr> method' = Some ''POST'', body = Some data, headers = None \<rparr> True w"

definition updateStatus :: "env \<Rightarrow> settings \<Rightarrow> string \<Rightarrow> world \<Rightarrow> (js_error + api_value) \<times> world" where
  "updateStatus ev st data w =
     request ev st ''/update-status'' \<lparr> method' = Some ''POST'', body = Some data, headers = None \<rparr> True w"

definition updateDetails :: "env \<Rightarrow> settings \<Rightarrow> string \<Rightarrow> world \<Rightarrow> (js_error + api_value) \<times> world" where
  "updateDetails ev st data w =
     request ev st ''/update-details'' \<lparr> method' = Some ''POST'', body = Some data, headers = None \<rparr> True w"

subsection \<open>Calls and what they leave behind\<close>

text \<open>A caller picks one of the five public methods.\<close>

datatype api_call =
  GetConfig
| GetOrders js_number string string string
| AddOrder string
| UpdateStatus string
| UpdateDetails string

fun perform :: "env \<Rightarrow> settings \<Rightarrow> api_call \<Rightarrow> world \<Rightarrow> (js_error + api_value) \<times> world" where
  "perform ev st GetConfig w = getConfig ev st w"
| "perform ev st (GetOrders page search partner status') w = getOrders ev st page search partner status' w"
| "perform ev st (AddOrder data) w = addOrder ev st data w"
| "perform ev st (UpdateStatus data) w = updateStatus ev st data w"
| "perform ev st (UpdateDetails data) w = updateDetails ev st data w"

fun is_mutation :: "api_call \<Rightarrow> bool" where
  "is_mutation (AddOrder data) = True"
| "is_mutation (UpdateStatus data) = True"
| "is_mutation (UpdateDetails data) = True"
| "is_mutation c = False"

text \<open>The calls to \<^verbatim>\<open>fetch\<close> made between the state \<open>w\<close> and the later state \<open>w'\<close>.\<close>

definition calls_made :: "world \<Rightarrow> world \<Rightarrow> fetch_call list" where
  "calls_made w w' = drop (length (fetched w)) (fetched w')"

text \<open>The API-key header of a call to \<^verbatim>\<open>fetch\<close>, \<open>None\<close> when the call has none.\<close>

definition key_header :: "fetch_call \<Rightarrow> string option" where
  "key_header c = (case headers (init c) of None \<Rightarrow> None | Some h \<Rightarrow> h ''X-FBBOT-API-KEY'')"

text \<open>The orders of an outcome, and the \<^verbatim>\<open>success\<close> flag of an outcome.\<close>

fun orders_of :: "js_error + api_value \<Rightarrow> order list" where
  "orders_of (Inr (Orders r)) = orders r"
| "orders_of x = []"

fun succeeded :: "js_error + api_value \<Rightarrow> bool" where
  "succeeded (Inr (Added r)) = success r"
| "succeeded (Inr (Updated r)) = success r"
| "succeeded x = False"

text \<open>The page the mock responder reads from the query string of a call made with the
  number \<open>page\<close>.\<close>

definition page_read :: "js_number \<Rightarrow> int option" where
  "page_read page = parseInt (or_default (Some (Number_toString page)) ''1'')"

subsection \<open>The filters, as the specification words them\<close>

text \<open>An order matches every filter that is supplied: the search, the partner and the
  status, each one only when it is not empty.\<close>

definition matches :: "string \<Rightarrow> string \<Rightarrow> string \<Rightarrow> order \<Rightarrow> bool" where
  "matches search partner status' o' =
     ((search = [] \<or> search_hit (toLowerCase search) o') \<and>
      (partner = [] \<or> delivery_partner o' = partner) \<and>
      (status' = [] \<or> latest_status o' = status'))"

subsection \<open>Example values\<close>

text \<open>A sequence of draws, the state after the module is loaded with it, settings for
  mock mode and for a real backend, and an environment whose network gives one answer.\<close>

definition example_draws :: "nat \<Rightarrow> nat" where
  "example_draws k = 1234567890123456 * k"

definition example_world :: world where
  "example_world = module_init example_draws"

definition example_mock :: settings where
  "example_mock = \<lparr> baseUrl = '''', apiKey = None, useMock = True \<rparr>"

definition example_live :: settings where
  "example_live = \<lparr> baseUrl = ''https://shop.example/wp-json/fbbot/v1/'', apiKey = Some ''secret'', useMock = False \<rparr>"

definition example_env :: "string \<Rightarrow> fetch_outcome \<Rightarrow> env" where
  "example_env protocol outcome = \<lparr> location_protocol = protocol, fetch = (\<lambda>c. outcome) \<rparr>"

section \<open>Properties\<close>

subsection \<open>Requests to the network\<close>

lemma on_catch_Error [simp]: "on_catch ev u (Error m) = Error m"
  by (simp add: on_catch_def Error_def)

text \<open>Every method is one call of \<open>request\<close>, with authentication for all but
  \<open>GetConfig\<close>, and with options that carry no headers.\<close>

lemma perform_is_request:
  "\<exists>endpoint options. headers options = None \<and>
     perform ev st c w = request ev st endpoint options (c \<noteq> GetConfig) w"
proof (cases c)
  case GetConfig
  then show ?thesis by (auto simp: getConfig_def intro!: exI)
next
  case (GetOrders page search partner status')
  then show ?thesis by (auto simp: getOrders_def Let_def intro!: exI)
next
  case (AddOrder data)
  then show ?thesis by (auto simp: addOrder_def intro!: exI)
next
  case (UpdateStatus data)
  then show ?thesis by (auto simp: updateStatus_def intro!: exI)
next
  case (UpdateDetails data)
  then show ?thesis by (auto simp: updateDetails_def intro!: exI)
qed

text \<open>A request in mock mode, or with a rejected base URL, leaves the state of the
  network as it is; any other request makes exactly one call to \<^verbatim>\<open>fetch\<close>.\<close>

lemma request_mock_fetched:
  "useMock st \<Longrightarrow> fetched (snd (request ev st endpoint options a w)) = fetched w"
  by (simp add: request_def mockResponse_def Let_def)

lemma request_real_call:
  assumes "\<not> useMock st" "baseUrl st \<noteq> []"
    "\<not> includes_str (baseUrl st) ''your-wordpress-site.com''"
  shows "fetched (snd (request ev st endpoint options a w)) =
           fetched w @ [\<lparr> url = strip_trailing_slash (baseUrl st) @ endpoint,
                          init = options\<lparr> headers :=
                            Some (getHeaders st a ++
                                  (case headers options of None \<Rightarrow> Map.empty | Some h \<Rightarrow> h)) \<rparr> \<rparr>]"
  using assms
  by (simp add: request_def Let_def split: fetch_outcome.splits sum.splits)

lemma perform_real_call:
  assumes "\<not> useMock st" "baseUrl st \<noteq> []"
    "\<not> includes_str (baseUrl st) ''your-wordpress-site.com''"
  shows "\<exists>fc endpoint. calls_made w (snd (perform ev st c w)) = [fc] \<and>
           headers (init fc) = Some (getHeaders st (c \<noteq> GetConfig)) \<and>
           url fc = strip_trailing_slash (baseUrl st) @ endpoint"
proof -
  obtain endpoint options where o: "headers options = None"
    and p: "perform ev st c w = request ev st endpoint options (c \<noteq> GetConfig) w"
    using perform_is_request by blast
  show ?thesis
    unfolding p calls_made_def request_real_call [OF assms] using o by simp
qed

lemma perform_real_outcome:
  assumes "\<not> useMock st" "baseUrl st \<noteq> []"
    "\<not> includes_str (baseUrl st) ''your-wordpress-site.com''"
    and "calls_made w (snd (perform ev st c w)) = [fc]"
  shows "fst (perform ev st c w) =
           (case fetch ev fc of
              Rejected e \<Rightarrow> Inl (on_catch ev (url fc) e)
            | Resolved r \<Rightarrow>
                if \<not> ok r then
                  (if status r = 401 then Inl (Error ''Invalid API Key'')
                   else if status r = 404 then Inl (Error ''Endpoint not found. Check your WordPress URL.'')
                   else Inl (Error (''API Error: '' @ string_of_nat (status r) @ '' '' @ statusText r)))
                else (case json r of Inl e \<Rightarrow> Inl e | Inr v \<Rightarrow> Inr (Json v)))"
proof -
  obtain endpoint options where
    p: "perform ev st c w = request ev st endpoint options (c \<noteq> GetConfig) w"
    using perform_is_request by blast
  let ?call = "\<lparr> url = strip_trailing_slash (baseUrl st) @ endpoint,
                  init = options\<lparr> headers :=
                    Some (getHeaders st (c \<noteq> GetConfig) ++
                          (case headers options of None \<Rightarrow> Map.empty | Some h \<Rightarrow> h)) \<rparr> \<rparr>"
  have fc: "fc = ?call"
    using assms(4) unfolding p calls_made_def request_real_call [OF assms(1-3)] by simp
  show ?thesis
    unfolding p fc using assms(1-3)
    by (simp add: request_def Let_def split: fetch_outcome.splits sum.splits)
qed

lemma getHeaders_key:
  "getHeaders st a ''X-FBBOT-API-KEY'' =
     (case apiKey st of Some k \<Rightarrow> if a \<and> k \<noteq> [] then Some k else None | None \<Rightarrow> None)"
  by (simp add: getHeaders_def Let_def split: option.splits)

lemma getOrders_mock_reads_orders:
  assumes "useMock st" "useMock st'" "MOCK_ORDERS w' = MOCK_ORDERS w"
  shows "fst (getOrders ev' st' page search partner status' w') =
         fst (getOrders ev st page search partner status' w)"
  using assms
  by (simp add: getOrders_def request_def mockResponse_def Let_def)

lemma length_module_init: "length (MOCK_ORDERS (module_init rnd)) = 45"
  by (simp add: module_init_def generateMockOrders_def)

subsection \<open>Decimal text and parseInt\<close>

lemma digit_table:
  "\<forall>d\<in>set [0..<10]. digit_val (digit_char d) = d \<and> digit_char d \<in> set ''0123456789''"
  by code_simp

lemma digit_val_digit_char: "d < 10 \<Longrightarrow> digit_val (digit_char d) = d"
  using digit_table by (simp del: upt_conv_Cons upt_Suc)

lemma digit_char_is_digit: "d < 10 \<Longrightarrow> digit_char d \<in> set ''0123456789''"
  using digit_table by (simp del: upt_conv_Cons upt_Suc set_simps)

lemma string_of_nat_digits: "set (string_of_nat n) \<subseteq> set ''0123456789''"
proof (induction n rule: string_of_nat.induct)
  case (1 n)
  show ?case
  proof (cases "n < 10")
    case True
    then show ?thesis
      using digit_char_is_digit [of n] by (subst string_of_nat.simps) simp
  next
    case False
    then show ?thesis
      using 1 digit_char_is_digit [of "n mod 10"] by (subst string_of_nat.simps) simp
  qed
qed

lemma string_of_nat_not_Nil: "string_of_nat n \<noteq> []"
  by (subst string_of_nat.simps) simp

lemma digits_val_snoc: "digits_val r (ds @ [c]) = digits_val r ds * r + digit_val c"
  by (simp add: digits_val_def)

lemma digits_val_string_of_nat: "digits_val 10 (string_of_nat n) = n"
proof (induction n rule: string_of_nat.induct)
  case (1 n)
  show ?case
  proof (cases "n < 10")
    case True
    then show ?thesis
      by (subst string_of_nat.simps) (simp add: digits_val_def digit_val_digit_char)
  next
    case False
    then show ?thesis
      using 1 by (subst string_of_nat.simps) (simp add: digits_val_snoc digit_val_digit_char)
  qed
qed

lemma digit_chars_table:
  "\<forall>c\<in>set ''0123456789''. digit_val c < 10 \<and> \<not> is_js_space c \<and> c \<noteq> CHR ''-'' \<and> c \<noteq> CHR ''+''
      \<and> c \<noteq> CHR ''x'' \<and> c \<noteq> CHR ''X''"
  by code_simp

lemma startsWith_set: "startsWith s p \<Longrightarrow> set p \<subseteq> set s"
proof -
  assume a: "startsWith s p"
  have "set (take (length p) s) \<subseteq> set s" by (rule set_take_subset)
  then show ?thesis using a by (simp add: startsWith_def)
qed

lemma parseInt_digits:
  assumes "set ds \<subseteq> set ''0123456789''" "ds \<noteq> []"
  shows "parseInt ds = Some (int (digits_val 10 ds))"
    and "parseInt (CHR ''-'' # ds) = Some (- int (digits_val 10 ds))"
proof -
  have all: "\<forall>c\<in>set ds. digit_val c < 10 \<and> \<not> is_js_space c \<and> c \<noteq> CHR ''-'' \<and> c \<noteq> CHR ''+''
      \<and> c \<noteq> CHR ''x'' \<and> c \<noteq> CHR ''X''"
    using digit_chars_table assms(1) by blast
  obtain c cs where ds: "ds = c # cs" using assms(2) by (cases ds) auto
  have dw: "dropWhile is_js_space ds = ds"
    using all unfolding ds by simp
  have dw': "dropWhile is_js_space (CHR ''-'' # ds) = CHR ''-'' # ds"
    by (simp add: is_js_space_def)
  have nm: "\<not> startsWith ds ''-''" "\<not> startsWith ds ''+''"
    using all unfolding ds by (simp_all add: startsWith_def)
  have nx: "\<not> startsWith ds ''0x''" "\<not> startsWith ds ''0X''"
    using startsWith_set [of ds "''0x''"] startsWith_set [of ds "''0X''"] all by auto
  have sm: "startsWith (CHR ''-'' # ds) ''-''" "drop 1 (CHR ''-'' # ds) = ds"
    by (simp_all add: startsWith_def)
  have tw: "takeWhile (\<lambda>c. digit_val c < 10) ds = ds"
    using all by (simp add: takeWhile_eq_all_conv)
  show "parseInt ds = Some (int (digits_val 10 ds))"
    unfolding parseInt_def Let_def dw using nm nx assms(2) by (simp add: tw)
  show "parseInt (CHR ''-'' # ds) = Some (- int (digits_val 10 ds))"
    unfolding parseInt_def Let_def dw' using sm nx assms(2) by (simp add: tw)
qed

lemma parseInt_string_of_int: "parseInt (string_of_int p) = Some p"
  using parseInt_digits [OF string_of_nat_digits string_of_nat_not_Nil]
  by (simp add: string_of_int_def digits_val_string_of_nat)

lemma string_of_int_not_Nil: "string_of_int p \<noteq> []"
  by (simp add: string_of_int_def string_of_nat_not_Nil)

subsection \<open>The query string survives the round trip\<close>

lemma unreserved_table:
  "\<forall>c\<in>set (''ABCDEFGHIJKLMNOPQRSTUVWXYZabcdefghijklmnopqrstuvwxyz0123456789'' @ ''*-._'').
     c \<notin> set ''+%&=#'' \<and> \<not> is_c0_or_space c"
  by code_simp

lemma hex_table:
  "\<forall>n\<in>set [0..<16]. digit_val (hex_char n) = n \<and> hex_char n \<notin> set ''+%&=#''
     \<and> \<not> is_c0_or_space (hex_char n)"
  by code_simp

lemma hex_char_props:
  assumes "n < 16"
  shows "digit_val (hex_char n) = n" "hex_char n \<notin> set ''+%&=#''" "\<not> is_c0_or_space (hex_char n)"
  using hex_table assms by (simp_all del: upt_conv_Cons upt_Suc set_simps)

lemma punct_props:
  "\<not> is_c0_or_space CHR ''+''" "\<not> is_c0_or_space CHR ''%''" "\<not> is_c0_or_space CHR ''=''"
  "\<not> is_c0_or_space CHR ''&''"
  by (simp_all add: is_c0_or_space_def)

lemma of_char_div_mod:
  "(of_char c :: nat) div 16 < 16" "(of_char c :: nat) mod 16 < 16"
proof -
  have "(of_char c :: nat) < 256" by simp
  then show "(of_char c :: nat) div 16 < 16" by arith
  show "(of_char c :: nat) mod 16 < 16" by simp
qed

lemma encode_byte_cases:
  obtains (plain) "encode_byte c = [c]" "c \<notin> set ''+%&=#''" "\<not> is_c0_or_space c"
  | (space) "c = CHR '' ''" "encode_byte c = ''+''"
  | (hex) h l where "encode_byte c = [CHR ''%'', h, l]"
      "digit_val h = of_char c div 16" "digit_val l = of_char c mod 16"
      "h \<notin> set ''+%&=#''" "l \<notin> set ''+%&=#''" "\<not> is_c0_or_space h" "\<not> is_c0_or_space l"
proof (cases "is_alnum c \<or> c \<in> set ''*-._''")
  case True
  then have "c \<in> set (''ABCDEFGHIJKLMNOPQRSTUVWXYZabcdefghijklmnopqrstuvwxyz0123456789'' @ ''*-._'')"
    by (simp only: is_alnum_def set_append Un_iff)
  then have "c \<notin> set ''+%&=#'' \<and> \<not> is_c0_or_space c"
    using unreserved_table by blast
  moreover have "encode_byte c = [c]" using True by (simp only: encode_byte_def if_True)
  ultimately show ?thesis using plain by blast
next
  case False
  show ?thesis
  proof (cases "c = CHR '' ''")
    case True
    have "encode_byte c = ''+''"
      using False True by (simp add: encode_byte_def)
    then show ?thesis using space True by blast
  next
    case ns: False
    have "encode_byte c = [CHR ''%'', hex_char (of_char c div 16), hex_char (of_char c mod 16)]"
      using False ns by (simp only: encode_byte_def if_False)
    then show ?thesis
      using hex [of "hex_char (of_char c div 16)" "hex_char (of_char c mod 16)"]
        hex_char_props [OF of_char_div_mod(1) [of c]] hex_char_props [OF of_char_div_mod(2) [of c]]
      by blast
  qed
qed

lemma percent_decode_plain:
  assumes "c \<noteq> CHR ''%''"
  shows "percent_decode (c # cs) = c # percent_decode cs"
proof (cases cs)
  case Nil
  then show ?thesis by simp
next
  case (Cons h t)
  then show ?thesis using assms by (cases t) simp_all
qed

lemma form_decode_Cons_plain:
  "c \<noteq> CHR ''%'' \<Longrightarrow> c \<noteq> CHR ''+'' \<Longrightarrow> form_decode (c # cs) = c # form_decode cs"
  by (simp add: form_decode_def percent_decode_plain)

lemma form_decode_encode_byte: "form_decode (encode_byte c @ rest) = c # form_decode rest"
proof (cases c rule: encode_byte_cases)
  case plain
  then show ?thesis by (simp add: form_decode_Cons_plain)
next
  case space
  then show ?thesis by (simp add: form_decode_def percent_decode_plain)
next
  case (hex h l)
  have "char_of (16 * ((of_char c :: nat) div 16) + of_char c mod 16) = c"
    by simp
  then show ?thesis using hex of_char_div_mod [of c] by (simp add: form_decode_def)
qed

lemma form_decode_encode: "form_decode (form_encode s) = s"
proof (induction s)
  case Nil
  show ?case by (simp add: form_encode_def form_decode_def)
next
  case (Cons c s)
  then show ?case
    using form_decode_encode_byte [of c "form_encode s"] by (simp add: form_encode_def)
qed

lemma encode_byte_safe:
  "x \<in> set (encode_byte c) \<Longrightarrow> x \<notin> set ''&=#'' \<and> \<not> is_c0_or_space x"
  by (cases c rule: encode_byte_cases) (auto simp: punct_props)

lemma form_encode_safe:
  "x \<in> set (form_encode s) \<Longrightarrow> x \<notin> set ''&=#'' \<and> \<not> is_c0_or_space x"
  unfolding form_encode_def using encode_byte_safe by auto

lemma split_on_none: "d \<notin> set p \<Longrightarrow> split_on d p = [p]"
  by (induction p) auto

lemma split_on_append: "d \<notin> set p \<Longrightarrow> split_on d (p @ d # rest) = p # split_on d rest"
  by (induction p) auto

lemma split_on_join_amp:
  "ps \<noteq> [] \<Longrightarrow> \<forall>p\<in>set ps. CHR ''&'' \<notin> set p \<Longrightarrow> split_on CHR ''&'' (join_amp ps) = ps"
proof (induction ps rule: join_amp.induct)
  case 1
  then show ?case by simp
next
  case (2 x)
  then show ?case by (simp add: split_on_none)
next
  case (3 x y ys)
  then show ?case by (simp add: split_on_append)
qed

lemma join_amp_all:
  "\<forall>p\<in>set ps. \<forall>x\<in>set p. P x \<Longrightarrow> P CHR ''&'' \<Longrightarrow> \<forall>x\<in>set (join_amp ps). P x"
  by (induction ps rule: join_amp.induct) auto

lemma dropWhile_none: "\<forall>x\<in>set xs. \<not> P x \<Longrightarrow> dropWhile P xs = xs"
  by (cases xs) auto

lemma url_clean_id:
  assumes "\<forall>c\<in>set s. \<not> is_c0_or_space c"
  shows "url_clean s = s"
proof -
  have "dropWhile is_c0_or_space s = s"
    using assms by (rule dropWhile_none)
  moreover have "dropWhile is_c0_or_space (rev s) = rev s"
    using assms by (intro dropWhile_none) simp
  moreover have "\<forall>c\<in>set s. c \<notin> set [CHR 0x09, CHR 0x0A, CHR 0x0D]"
    using assms by (auto simp: is_c0_or_space_def)
  ultimately show ?thesis
    by (simp add: url_clean_def del: set_simps)
qed

lemma pair_piece:
  "x \<in> set (form_encode k @ ''='' @ form_encode v) \<Longrightarrow>
     x \<noteq> CHR ''&'' \<and> x \<noteq> CHR ''#'' \<and> \<not> is_c0_or_space x"
  using form_encode_safe [of x k] form_encode_safe [of x v] by (auto simp: punct_props)

lemma parse_pair_encode: "parse_pair (form_encode k @ CHR ''='' # form_encode v) = (k, v)"
proof -
  have k: "\<forall>x\<in>set (form_encode k). x \<noteq> CHR ''=''"
    using form_encode_safe [of _ k] by auto
  have "takeWhile (\<lambda>c. c \<noteq> CHR ''='') (form_encode k @ CHR ''='' # form_encode v) = form_encode k"
    using k by (simp add: takeWhile_tail)
  moreover have "dropWhile (\<lambda>c. c \<noteq> CHR ''='') (form_encode k @ CHR ''='' # form_encode v)
      = CHR ''='' # form_encode v"
    using k by (simp add: dropWhile_append3)
  ultimately show ?thesis
    by (simp add: parse_pair_def form_decode_encode)
qed

lemma searchParams_toString:
  assumes "params \<noteq> []"
  shows "searchParams (''/orders?'' @ URLSearchParams_toString params) = params"
proof -
  let ?pieces = "map (\<lambda>(k, v). form_encode k @ ''='' @ form_encode v) params"
  let ?q = "join_amp ?pieces"
  have pieces: "\<forall>p\<in>set ?pieces. \<forall>x\<in>set p. x \<noteq> CHR ''&'' \<and> x \<noteq> CHR ''#'' \<and> \<not> is_c0_or_space x"
    using pair_piece by auto
  have q: "\<forall>x\<in>set ?q. x \<noteq> CHR ''#'' \<and> \<not> is_c0_or_space x"
    by (rule join_amp_all) (use pieces in \<open>simp_all add: punct_props\<close>)
  have "\<forall>c\<in>set (''/orders?'' @ ?q). \<not> is_c0_or_space c"
    using q by (auto simp: is_c0_or_space_def)
  then have clean: "url_clean (''/orders?'' @ ?q) = ''/orders?'' @ ?q"
    by (rule url_clean_id)
  have "takeWhile (\<lambda>c. c \<noteq> CHR ''#'') (''/orders?'' @ ?q) = ''/orders?'' @ ?q"
    using q by (simp add: takeWhile_eq_all_conv)
  then have query: "url_query (''/orders?'' @ ?q) = ?q"
    unfolding url_query_def clean by simp
  have split: "split_on CHR ''&'' ?q = ?pieces"
    using assms pieces by (intro split_on_join_amp) auto
  have nonempty: "filter (\<lambda>p. p \<noteq> []) ?pieces = ?pieces"
    by (auto simp: filter_id_conv)
  have "map parse_pair ?pieces = params"
    by (induction params) (auto simp: parse_pair_encode)
  then show ?thesis
    unfolding searchParams_def URLSearchParams_toString_def query split nonempty .
qed

lemma toLowerCase_Nil_iff: "toLowerCase s = [] \<longleftrightarrow> s = []"
  by (simp add: toLowerCase_def)

lemma page_read_Integer: "\<bar>p\<bar> < 10 ^ 21 \<Longrightarrow> page_read (Integer p) = Some p"
  using string_of_int_not_Nil [of p]
  by (simp add: page_read_def or_default_def parseInt_string_of_int)

lemma getOrders_mock:
  assumes "useMock st"
  shows "getOrders ev st page search partner status' w =
           (Inr (Orders (paginate (filteredOrders (MOCK_ORDERS w) (toLowerCase search) partner status')
                           (page_read page))), w)"
proof -
  let ?params = "[(''page'', Number_toString page)]
                   @ (if search \<noteq> [] then [(''search'', search)] else [])
                   @ (if partner \<noteq> [] then [(''delivery_partner'', partner)] else [])
                   @ (if status' \<noteq> [] then [(''status'', status')] else [])"
  let ?e = "''/orders?'' @ URLSearchParams_toString ?params"
  have sp: "searchParams ?e = ?params"
    by (rule searchParams_toString) simp
  have page: "parseInt (or_default (searchParams_get ?params ''page'') ''1'') = page_read page"
    by (simp add: page_read_def searchParams_get_def)
  have search: "or_default (searchParams_get ?params ''search'') '''' = search"
    by (simp add: or_default_def searchParams_get_def)
  have partner: "or_default (searchParams_get ?params ''delivery_partner'') '''' = partner"
    by (simp add: or_default_def searchParams_get_def)
  have status: "or_default (searchParams_get ?params ''status'') '''' = status'"
    by (simp add: or_default_def searchParams_get_def)
  have e: "?e \<noteq> ''/app-config''" "startsWith ?e ''/orders''"
    by (simp_all add: startsWith_def)
  have "mockResponse ?e opts w =
          (Inr (Orders (paginate (filteredOrders (MOCK_ORDERS w) (toLowerCase search) partner status')
                          (page_read page))), w)" for opts
    unfolding mockResponse_def Let_def sp page search partner status
    using e by simp
  then show ?thesis
    using assms by (simp add: getOrders_def request_def Let_def)
qed

subsection \<open>Filtering\<close>

lemma filteredOrders_filter:
  "filteredOrders all_orders s p t =
     filter (\<lambda>o'. (s = [] \<or> search_hit s o') \<and> (p = [] \<or> delivery_partner o' = p) \<and>
                  (t = [] \<or> latest_status o' = t)) all_orders"
  by (simp add: filteredOrders_def Let_def conj_commute)

subsection \<open>Pages\<close>

lemma ceil_div_20: "ceil_div n 20 = int ((n + 19) div 20)"
proof -
  define q where "q = (n + 19) div 20"
  have "n \<le> 20 * q" "20 * q < n + 20"
    unfolding q_def by linarith+
  then have "real n \<le> real (20 * q)" "real (20 * q) < real (n + 20)"
    by (simp_all only: of_nat_le_iff of_nat_less_iff)
  then have "real n \<le> 20 * real q" "20 * real q < real n + 20"
    by simp_all
  then have "\<lceil>real n / 20\<rceil> = int q"
    by (intro ceiling_unique) (simp_all add: field_simps)
  then show ?thesis by (simp add: ceil_div_def q_def)
qed

lemma total_pages_paginate:
  "total_pages (pagination (paginate F page)) = max 1 (int ((length F + 19) div 20))"
  by (simp add: paginate_def Let_def ceil_div_20)

lemma slice_page:
  assumes "1 \<le> p"
  shows "slice xs ((p - 1) * 20) ((p - 1) * 20 + 20) = take 20 (drop (nat ((p - 1) * 20)) xs)"
proof -
  define a where "a = nat ((p - 1) * 20)"
  have a: "(p - 1) * 20 = int a" using assms by (simp add: a_def)
  show ?thesis
  proof (cases "a \<le> length xs")
    case True
    then show ?thesis
      unfolding a slice_def Let_def by (auto simp: min_def nat_diff_distrib' nat_add_distrib)
  next
    case False
    then show ?thesis
      unfolding a slice_def Let_def by (auto simp: min_def)
  qed
qed

lemma length_slice_20: "length (slice xs a (a + 20)) \<le> 20"
  by (auto simp: slice_def Let_def min_def max_def)

lemma set_slice: "set (slice xs a b) \<subseteq> set xs"
  unfolding slice_def Let_def
  by (meson set_take_subset set_drop_subset subset_trans)

lemma concat_pages:
  "concat (map (\<lambda>p. take 20 (drop (nat ((p - 1) * 20)) xs)) [1..int k]) = take (k * 20) xs"
proof (induction k)
  case 0
  show ?case by simp
next
  case (Suc k)
  have "[1..int (Suc k)] = [1..int k] @ [int k + 1]"
    using upto_rec2 [of 1 "int (Suc k)"] by (simp add: add.commute)
  then show ?case
    using Suc by (simp add: nat_mult_distrib take_add [symmetric] add.commute)
qed

lemma orders_paginate:
  "orders (paginate F (Some p)) = slice F ((p - 1) * 20) ((p - 1) * 20 + 20)"
  by (simp add: paginate_def Let_def)

lemma concat_all_pages:
  "concat (map (\<lambda>p. orders (paginate F (Some p))) [1..max 1 (int ((length F + 19) div 20))]) = F"
proof -
  define k where "k = max 1 ((length F + 19) div 20)"
  have k: "max 1 (int ((length F + 19) div 20)) = int k" by (simp add: k_def)
  have len: "length F \<le> k * 20" unfolding k_def by (simp add: max_def) presburger
  have "orders (paginate F (Some p)) = take 20 (drop (nat ((p - 1) * 20)) F)"
    if "p \<in> set [1..int k]" for p
  proof -
    have "1 \<le> p" using that by simp
    then show ?thesis unfolding orders_paginate by (rule slice_page)
  qed
  then have "map (\<lambda>p. orders (paginate F (Some p))) [1..int k]
      = map (\<lambda>p. take 20 (drop (nat ((p - 1) * 20)) F)) [1..int k]"
    by (rule map_cong [OF refl])
  then have "concat (map (\<lambda>p. orders (paginate F (Some p))) [1..int k]) = take (k * 20) F"
    by (simp only: concat_pages)
  then show ?thesis
    unfolding k using len by simp
qed

subsection \<open>Substrings\<close>

lemma startsWith_iff: "startsWith s t \<longleftrightarrow> (\<exists>q. s = t @ q)"
proof
  assume "startsWith s t"
  then have "s = t @ drop (length t) s"
    unfolding startsWith_def by (metis append_take_drop_id)
  then show "\<exists>q. s = t @ q" ..
next
  assume "\<exists>q. s = t @ q"
  then show "startsWith s t" by (auto simp: startsWith_def)
qed

lemma includes_str_iff: "includes_str s t \<longleftrightarrow> (\<exists>p q. s = p @ t @ q)"
proof (induction s)
  case Nil
  show ?case by auto
next
  case (Cons c cs)
  show ?case
  proof
    assume "includes_str (c # cs) t"
    then consider "startsWith (c # cs) t" | "includes_str cs t" by auto
    then show "\<exists>p q. c # cs = p @ t @ q"
    proof cases
      case 1
      then obtain q where "c # cs = [] @ t @ q" by (auto simp: startsWith_iff)
      then show ?thesis by blast
    next
      case 2
      then obtain p q where "cs = p @ t @ q" using Cons by blast
      then have "c # cs = (c # p) @ t @ q" by simp
      then show ?thesis by blast
    qed
  next
    assume "\<exists>p q. c # cs = p @ t @ q"
    then obtain p q where pq: "c # cs = p @ t @ q" by blast
    show "includes_str (c # cs) t"
    proof (cases p)
      case Nil
      then have "startsWith (c # cs) t" unfolding startsWith_iff using pq by auto
      then show ?thesis by simp
    next
      case (Cons a p')
      then have "cs = p' @ t @ q" using pq by simp
      then show ?thesis using Cons.IH by auto
    qed
  qed
qed

lemma filteredOrders_matches:
  "filteredOrders all_orders (toLowerCase s) p t = filter (matches s p t) all_orders"
  unfolding filteredOrders_filter matches_def toLowerCase_Nil_iff ..

lemma getOrders_mock_read:
  assumes "useMock st"
  shows "fst (getOrders ev st page search partner status' w) =
           Inr (Orders (paginate (filter (matches search partner status') (MOCK_ORDERS w))
                          (page_read page)))"
  by (simp add: getOrders_mock [OF assms] filteredOrders_matches)

lemma getOrders_mock_paginate:
  assumes "useMock st" "\<bar>p\<bar> < 10 ^ 21"
  shows "fst (getOrders ev st (Integer p) search partner status' w) =
           Inr (Orders (paginate (filter (matches search partner status') (MOCK_ORDERS w)) (Some p)))"
  by (simp only: getOrders_mock_read [OF assms(1)] page_read_Integer [OF assms(2)])

lemma paginate_fields:
  "current_page (pagination (paginate F page)) = page"
  "total_items (pagination (paginate F page)) = length F"
  by (simp_all add: paginate_def Let_def)

lemma max_ceil_20: "max 1 \<lceil>real n / 20\<rceil> = max 1 (int ((n + 19) div 20))"
  using ceil_div_20 [of n] by (simp add: ceil_div_def)

subsection \<open>Generated orders\<close>

text \<open>The rounded product of a draw and \<open>n\<close> stays below \<open>n\<close>: the draw is at most
  \<open>1 - 2^-53\<close>, so the exact product is at least \<open>n * 2^-53\<close> below \<open>n\<close>, which is more
  than the rounding can add.\<close>

lemma bit_length_0: "bit_length 0 = 0"
  by (subst bit_length.simps) simp

lemma bit_length_pos: "0 < n \<Longrightarrow> bit_length n = Suc (bit_length (n div 2))"
  by (subst bit_length.simps) simp

lemma bit_length_upper: "x < 2 ^ bit_length x"
proof (induction x rule: bit_length.induct)
  case (1 n)
  show ?case
  proof (cases "n = 0")
    case True
    then show ?thesis by (simp add: bit_length_0)
  next
    case False
    then have "n div 2 < 2 ^ bit_length (n div 2)" using 1 by simp
    then have "n < 2 * 2 ^ bit_length (n div 2)" by linarith
    then show ?thesis using False by (simp add: bit_length_pos)
  qed
qed

lemma bit_length_lower: "0 < x \<Longrightarrow> 2 ^ (bit_length x - 1) \<le> x"
proof (induction x rule: bit_length.induct)
  case (1 n)
  show ?case
  proof (cases "n div 2 = 0")
    case True
    then show ?thesis using 1(2) by (simp add: bit_length_pos bit_length_0)
  next
    case False
    then have ih: "2 ^ (bit_length (n div 2) - 1) \<le> n div 2"
      using 1 by simp
    obtain b where b: "bit_length (n div 2) = Suc b"
      using False by (auto simp: bit_length_pos)
    have "2 * 2 ^ b \<le> n" using ih unfolding b by simp
    then show ?thesis using 1(2) by (simp add: bit_length_pos b)
  qed
qed

lemma bit_length_large:
  assumes "2 ^ 53 \<le> x"
  obtains j where "bit_length x = 54 + j"
proof -
  have "(2::nat) ^ 53 < 2 ^ bit_length x"
    using assms bit_length_upper [of x] by (rule le_less_trans)
  then have "53 < bit_length x" by (simp only: power_strict_increasing_iff one_less_numeral_iff semiring_norm)
  then have "bit_length x = 54 + (bit_length x - 54)" by simp
  then show ?thesis by (rule that)
qed

lemma round_to_double_upper:
  assumes "2 ^ 53 \<le> x" and "bit_length x = 54 + j"
  shows "round_to_double x \<le> x + 2 ^ j"
proof -
  define K where "K = (2::nat) ^ (bit_length x - 53)"
  have K: "K = 2 * 2 ^ j" "2 ^ (bit_length x - 53 - 1) = (2::nat) ^ j"
    using assms(2) by (simp_all add: K_def)
  have d: "x div K * K + x mod K = x" by (rule div_mult_mod_eq)
  have r: "round_to_double x =
      (if 2 ^ j < x mod K \<or> (x mod K = 2 ^ j \<and> odd (x div K)) then x div K + 1 else x div K) * K"
    using assms(1) unfolding round_to_double_def Let_def K_def [symmetric] K(2) by simp
  show ?thesis
  proof (cases "2 ^ j < x mod K \<or> (x mod K = 2 ^ j \<and> odd (x div K))")
    case True
    then have "2 ^ j \<le> x mod K" by auto
    moreover have "round_to_double x = (x div K + 1) * K"
      unfolding r using True by (simp only: if_True)
    then have "round_to_double x = x div K * K + K"
      by (simp add: algebra_simps)
    ultimately show ?thesis using d K(1) by linarith
  next
    case False
    then have "round_to_double x = x div K * K"
      unfolding r by (simp only: if_False)
    then show ?thesis using d by linarith
  qed
qed

lemma floor_random_less:
  assumes "0 < n"
  shows "floor_random n d < n"
proof -
  define m where "m = d mod 2 ^ 53"
  define x where "x = m * n"
  have m: "m < 2 ^ 53" by (simp add: m_def)
  have xn: "x + n \<le> n * 2 ^ 53"
  proof -
    have "m + 1 \<le> 2 ^ 53" using m by simp
    then have "(m + 1) * n \<le> 2 ^ 53 * n" by (rule mult_le_mono1)
    then show ?thesis by (simp add: x_def algebra_simps)
  qed
  have "round_to_double x < n * 2 ^ 53"
  proof (cases "x < 2 ^ 53")
    case True
    then have "round_to_double x = x" by (simp add: round_to_double_def)
    then show ?thesis using xn assms by linarith
  next
    case False
    then have big: "2 ^ 53 \<le> x" by simp
    then have pos: "0 < x" by (rule less_le_trans [rotated]) simp
    obtain j where j: "bit_length x = 54 + j" using big by (rule bit_length_large)
    have "2 ^ (53 + j) \<le> x" using bit_length_lower [OF pos] unfolding j by simp
    moreover have "x < 2 ^ 53 * n"
      unfolding x_def using m assms by simp
    ultimately have "(2::nat) ^ 53 * 2 ^ j < 2 ^ 53 * n" by (simp add: power_add)
    then have "2 ^ j < n" by simp
    moreover have "round_to_double x \<le> x + 2 ^ j"
      using big j by (rule round_to_double_upper)
    ultimately show ?thesis using xn by linarith
  qed
  then show ?thesis
    unfolding floor_random_def m_def [symmetric] x_def [symmetric]
    by (simp add: less_mult_imp_div_less)
qed

text \<open>The rounding is felt: at the draw 0.6 the exact product with 5 is below 3, the
  rounded one is 3.\<close>

lemma floor_random_rounds:
  "floor_random 5 5404319552844595 = 3 \<and> (5404319552844595 * 5) div 2 ^ 53 = (2::nat)"
  by (simp add: floor_random_def round_to_double_def bit_length.simps Let_def)

lemma mock_order_values:
  "delivery_partner (mock_order i r) \<in> set partners"
  "latest_status (mock_order i r) \<in> set statuses"
  by (simp_all add: mock_order_def floor_random_less partners_def statuses_def del: set_simps)

lemma generated_order:
  assumes "o' \<in> set (generateMockOrders count rnd)"
  obtains i r where "o' = mock_order i r"
  using assms by (auto simp: generateMockOrders_def)

lemma digits_lower_table: "\<forall>c\<in>set ''0123456789''. toLowerCase [c] = [c]"
  by code_simp

lemma toLowerCase_digits:
  assumes "set s \<subseteq> set ''0123456789''"
  shows "toLowerCase s = s"
proof -
  have "\<forall>c\<in>set s. toLowerCase [c] = [c]" using digits_lower_table assms by blast
  then show ?thesis
    unfolding toLowerCase_def by (induction s) simp_all
qed

lemma phone_digits: "set (phone (mock_order i r)) \<subseteq> set ''0123456789''"
proof -
  have "set (string_of_nat i) \<subseteq> set ''0123456789''" by (rule string_of_nat_digits)
  moreover have "set (replicate n CHR ''0'') \<subseteq> set ''0123456789''" for n by auto
  ultimately show ?thesis
    by (simp add: mock_order_def padStart_def del: set_simps set_replicate) auto
qed

lemma search_hit_generated:
  "search_hit s (mock_order i r) \<longleftrightarrow>
     (\<exists>pre post. toLowerCase (buyer_name (mock_order i r)) = pre @ s @ post) \<or>
     (\<exists>pre post. toLowerCase (phone (mock_order i r)) = pre @ s @ post) \<or>
     (\<exists>pre post. toLowerCase (tracking_code (mock_order i r)) = pre @ s @ post)"
  unfolding search_hit_def includes_str_iff toLowerCase_digits [OF phone_digits] ..

subsection \<open>Pages of the mock responder\<close>

lemma set_orders_paginate: "set (orders (paginate F page)) \<subseteq> set F"
  by (cases page) (simp_all add: paginate_def Let_def set_slice)

lemma length_orders_paginate: "length (orders (paginate F page)) \<le> 20"
proof (cases page)
  case None
  then show ?thesis by (simp add: paginate_def Let_def slice_def)
next
  case (Some p)
  then show ?thesis using length_slice_20 [of F "(p - 1) * 20"] by (simp add: orders_paginate)
qed

lemma orders_paginate_Nil: "orders (paginate [] page) = []"
  by (cases page) (simp_all add: paginate_def Let_def slice_def)

text \<open>With fewer than \<open>2^32\<close> orders, every page up to the last is printed in decimal.\<close>

lemma last_page_small:
  assumes "length F < 2 ^ 32" and "p \<in> set [1..max 1 (int ((length F + 19) div 20))]"
  shows "\<bar>p\<bar> < 10 ^ 21"
proof -
  have "(length F + 19) div 20 < 2 ^ 32" using assms(1) by simp
  then have "int ((length F + 19) div 20) < 2 ^ 32" by (simp only: of_nat_less_numeral_power_cancel_iff)
  then have "p < 2 ^ 32" "1 \<le> p" using assms(2) by auto
  then show ?thesis by simp
qed

lemma concat_all_pages_mock:
  assumes "useMock st" and "length (MOCK_ORDERS w) < 2 ^ 32"
  shows "concat (map (\<lambda>p. orders_of (fst (getOrders ev st (Integer p) search partner status' w)))
           [1..max 1 (int ((length (filter (matches search partner status') (MOCK_ORDERS w)) + 19) div 20))])
         = filter (matches search partner status') (MOCK_ORDERS w)"
proof -
  let ?F = "filter (matches search partner status') (MOCK_ORDERS w)"
  let ?k = "max 1 (int ((length ?F + 19) div 20))"
  have "length ?F \<le> length (MOCK_ORDERS w)" by (rule length_filter_le)
  then have len: "length ?F < 2 ^ 32" using assms(2) by (rule le_less_trans)
  have "orders_of (fst (getOrders ev st (Integer p) search partner status' w))
      = orders (paginate ?F (Some p))" if "p \<in> set [1..?k]" for p
    using getOrders_mock_paginate [OF assms(1) last_page_small [OF len that]] by simp
  then have "map (\<lambda>p. orders_of (fst (getOrders ev st (Integer p) search partner status' w))) [1..?k]
      = map (\<lambda>p. orders (paginate ?F (Some p))) [1..?k]"
    by (rule map_cong [OF refl])
  then show ?thesis by (simp only: concat_all_pages)
qed

lemma returned_on_some_page:
  assumes "useMock st" and "length (MOCK_ORDERS w) < 2 ^ 32"
  shows "(\<exists>p. o' \<in> set (orders_of (fst (getOrders ev st (Integer p) search partner status' w))))
         \<longleftrightarrow> o' \<in> set (MOCK_ORDERS w) \<and> matches search partner status' o'"
proof
  let ?F = "filter (matches search partner status') (MOCK_ORDERS w)"
  assume "\<exists>p. o' \<in> set (orders_of (fst (getOrders ev st (Integer p) search partner status' w)))"
  then obtain p where "o' \<in> set (orders (paginate ?F (page_read (Integer p))))"
    unfolding getOrders_mock_read [OF assms(1)] by auto
  then have "o' \<in> set ?F" using set_orders_paginate by blast
  then show "o' \<in> set (MOCK_ORDERS w) \<and> matches search partner status' o'" by simp
next
  let ?F = "filter (matches search partner status') (MOCK_ORDERS w)"
  assume "o' \<in> set (MOCK_ORDERS w) \<and> matches search partner status' o'"
  then have "o' \<in> set ?F" by simp
  then have "o' \<in> set (concat (map
      (\<lambda>p. orders_of (fst (getOrders ev st (Integer p) search partner status' w)))
      [1..max 1 (int ((length ?F + 19) div 20))]))"
    by (simp only: concat_all_pages_mock [OF assms])
  then show "\<exists>p. o' \<in> set (orders_of (fst (getOrders ev st (Integer p) search partner status' w)))"
    by auto
qed

section \<open>The claims about requests\<close>


text \<open>
  Claim C4. A call that reaches the network makes one call to \<^verbatim>\<open>fetch\<close>. When an API key
  is configured (a string that is not empty), the headers of that call carry the key under
  \<^verbatim>\<open>X-FBBOT-API-KEY\<close> for \<^verbatim>\<open>getOrders\<close>, \<^verbatim>\<open>addOrder\<close>, \<^verbatim>\<open>updateStatus\<close> and
  \<^verbatim>\<open>updateDetails\<close>. When no key is configured (absent, or the empty string), the headers
  have no entry under that name at all. For \<^verbatim>\<open>getConfig\<close> they never have one, whatever
  the settings say.
\<close>

theorem api_key_header:
  assumes "\<not> useMock st" "baseUrl st \<noteq> []"
    "\<not> includes_str (baseUrl st) ''your-wordpress-site.com''"
  shows "\<exists>fc. calls_made w (snd (perform ev st c w)) = [fc]
          \<and> (\<forall>k. c \<noteq> GetConfig \<and> apiKey st = Some k \<and> k \<noteq> [] \<longrightarrow> key_header fc = Some k)
          \<and> (apiKey st = None \<or> apiKey st = Some [] \<longrightarrow> key_header fc = None)
          \<and> (c = GetConfig \<longrightarrow> key_header fc = None)"
proof -
  obtain fc where fc: "calls_made w (snd (perform ev st c w)) = [fc]"
    and h: "headers (init fc) = Some (getHeaders st (c \<noteq> GetConfig))"
    using perform_real_call [OF assms] by blast
  show ?thesis
    using fc h by (auto simp: key_header_def getHeaders_key split: option.splits)
qed

text \<open>The example settings for a real backend pass the check of the base URL.\<close>

lemma example_live_ok:
  "\<not> useMock example_live" "baseUrl example_live \<noteq> []"
  "\<not> includes_str (baseUrl example_live) ''your-wordpress-site.com''"
  by (simp_all add: example_live_def startsWith_def)

text \<open>With the key \<^verbatim>\<open>secret\<close> configured, a status update sends it.\<close>

theorem api_key_header_witness:
  "\<not> useMock example_live \<and> baseUrl example_live \<noteq> []
   \<and> \<not> includes_str (baseUrl example_live) ''your-wordpress-site.com''
   \<and> (\<exists>fc. calls_made example_world
               (snd (perform (example_env ''https:'' (Rejected (Exception ''TypeError'' ''Failed to fetch'')))
                       example_live (UpdateStatus ''{}'') example_world)) = [fc]
          \<and> key_header fc = Some ''secret'')"
  using example_live_ok
    api_key_header [OF example_live_ok,
      of example_world "example_env ''https:'' (Rejected (Exception ''TypeError'' ''Failed to fetch''))"
         "UpdateStatus ''{}''"]
  by (auto simp: example_live_def)

text \<open>
  Claim C5. Outside mock mode, a base URL that is empty, or that contains the placeholder
  host \<^verbatim>\<open>your-wordpress-site.com\<close>, makes every method fail with the configuration error
  \<^verbatim>\<open>Invalid API URL\<close>, and the state is the one before the call: nothing was fetched.
\<close>

theorem rejected_base_url:
  assumes "\<not> useMock st"
    and "baseUrl st = [] \<or> includes_str (baseUrl st) ''your-wordpress-site.com''"
  shows "perform ev st c w = (Inl (Error ''Invalid API URL. Please configure a real WordPress URL.''), w)
         \<and> calls_made w (snd (perform ev st c w)) = []"
proof -
  obtain endpoint options where
    p: "perform ev st c w = request ev st endpoint options (c \<noteq> GetConfig) w"
    using perform_is_request by blast
  show ?thesis unfolding p calls_made_def using assms by (auto simp: request_def)
qed

text \<open>The placeholder URL is rejected, although the network would have answered 200.\<close>

theorem rejected_base_url_witness:
  "\<not> useMock (example_live\<lparr> baseUrl := ''https://your-wordpress-site.com/wp-json/fbbot/v1'' \<rparr>)
   \<and> includes_str (baseUrl (example_live\<lparr> baseUrl := ''https://your-wordpress-site.com/wp-json/fbbot/v1'' \<rparr>))
        ''your-wordpress-site.com''
   \<and> perform (example_env ''https:'' (Resolved \<lparr> status = 200, statusText = ''OK'', json = Inr ''{}'' \<rparr>))
        (example_live\<lparr> baseUrl := ''https://your-wordpress-site.com/wp-json/fbbot/v1'' \<rparr>)
        (GetOrders (Integer 1) '''' '''' '''') example_world
      = (Inl (Error ''Invalid API URL. Please configure a real WordPress URL.''), example_world)"
proof -
  let ?st = "example_live\<lparr> baseUrl := ''https://your-wordpress-site.com/wp-json/fbbot/v1'' \<rparr>"
  have m: "\<not> useMock ?st" by (simp add: example_live_def)
  have u: "includes_str (baseUrl ?st) ''your-wordpress-site.com''"
    by (simp add: startsWith_def)
  show ?thesis
    using m u rejected_base_url [OF m disjI2 [OF u]] by blast
qed

text \<open>
  Claim C6. Outside mock mode, when the call to \<^verbatim>\<open>fetch\<close> resolves with a response: status
  401 fails with the error \<^verbatim>\<open>Invalid API Key\<close>, status 404 with the error
  \<^verbatim>\<open>Endpoint not found\<close>, any other status outside 200..299 with the error
  \<^verbatim>\<open>API Error:\<close> followed by the status code and the status text, and a status within
  200..299 raises none of them: the outcome is the one of \<^verbatim>\<open>response.json()\<close>. The error
  for 401 is not the generic one.
\<close>

theorem http_status_errors:
  assumes "\<not> useMock st" "baseUrl st \<noteq> []"
    "\<not> includes_str (baseUrl st) ''your-wordpress-site.com''"
    and "calls_made w (snd (perform ev st c w)) = [fc]"
    and "fetch ev fc = Resolved r"
  shows "(status r = 401 \<longrightarrow> fst (perform ev st c w) = Inl (Error ''Invalid API Key''))
       \<and> (status r = 404 \<longrightarrow>
            fst (perform ev st c w) = Inl (Error ''Endpoint not found. Check your WordPress URL.''))
       \<and> ((status r < 200 \<or> 299 < status r) \<and> status r \<noteq> 401 \<and> status r \<noteq> 404 \<longrightarrow>
            fst (perform ev st c w) =
              Inl (Error (''API Error: '' @ string_of_nat (status r) @ '' '' @ statusText r)))
       \<and> (200 \<le> status r \<and> status r \<le> 299 \<longrightarrow>
            fst (perform ev st c w) = (case json r of Inl e \<Rightarrow> Inl e | Inr v \<Rightarrow> Inr (Json v)))
       \<and> Error ''Invalid API Key'' \<noteq> Error (''API Error: '' @ string_of_nat (status r) @ '' '' @ statusText r)"
  unfolding perform_real_outcome [OF assms(1-4)] assms(5)
  by (auto simp: ok_def Error_def)

text \<open>A response 401 to \<^verbatim>\<open>addOrder\<close>.\<close>

theorem http_status_errors_witness:
  "\<not> useMock example_live \<and> baseUrl example_live \<noteq> []
   \<and> \<not> includes_str (baseUrl example_live) ''your-wordpress-site.com''
   \<and> (\<exists>fc. calls_made example_world
               (snd (perform (example_env ''https:''
                                (Resolved \<lparr> status = 401, statusText = ''Unauthorized'', json = Inr ''{}'' \<rparr>))
                       example_live (AddOrder ''{}'') example_world)) = [fc]
          \<and> fetch (example_env ''https:''
                     (Resolved \<lparr> status = 401, statusText = ''Unauthorized'', json = Inr ''{}'' \<rparr>)) fc
              = Resolved \<lparr> status = 401, statusText = ''Unauthorized'', json = Inr ''{}'' \<rparr>)
   \<and> fst (perform (example_env ''https:''
                     (Resolved \<lparr> status = 401, statusText = ''Unauthorized'', json = Inr ''{}'' \<rparr>))
            example_live (AddOrder ''{}'') example_world) = Inl (Error ''Invalid API Key'')"
proof -
  let ?r = "\<lparr> status = 401, statusText = ''Unauthorized'', json = Inr ''{}'' \<rparr>"
  let ?ev = "example_env ''https:'' (Resolved ?r)"
  obtain fc where fc: "calls_made example_world (snd (perform ?ev example_live (AddOrder ''{}'') example_world)) = [fc]"
    using perform_real_call [OF example_live_ok] by blast
  have f: "fetch ?ev fc = Resolved ?r" by (simp add: example_env_def)
  show ?thesis
    using example_live_ok fc f http_status_errors [OF example_live_ok fc f] by simp
qed




text \<open>
  Claim C8. In mock mode, \<^verbatim>\<open>addOrder\<close>, \<^verbatim>\<open>updateStatus\<close> and \<^verbatim>\<open>updateDetails\<close> answer with
  \<^verbatim>\<open>success: true\<close> and leave the array of synthetic orders as it was, so that each later
  \<^verbatim>\<open>getOrders\<close> in mock mode answers as it would have answered before; after the module
  is loaded that array keeps its 45 orders.
\<close>

theorem mock_mutation_keeps_orders:
  assumes "useMock st" "is_mutation c"
  shows "succeeded (fst (perform ev st c w))
       \<and> MOCK_ORDERS (snd (perform ev st c w)) = MOCK_ORDERS w
       \<and> (\<forall>ev' page search partner status'.
            fst (getOrders ev' st page search partner status' (snd (perform ev st c w))) =
            fst (getOrders ev' st page search partner status' w))
       \<and> (\<forall>rnd. w = module_init rnd \<longrightarrow> length (MOCK_ORDERS (snd (perform ev st c w))) = 45)"
proof -
  have m: "MOCK_ORDERS (snd (perform ev st c w)) = MOCK_ORDERS w"
    using assms
    by (cases c)
      (simp_all add: addOrder_def updateStatus_def updateDetails_def request_def mockResponse_def
        startsWith_def)
  have s: "succeeded (fst (perform ev st c w))"
    using assms
    by (cases c)
      (simp_all add: addOrder_def updateStatus_def updateDetails_def request_def mockResponse_def
        startsWith_def)
  show ?thesis
    using m s getOrders_mock_reads_orders [OF assms(1) assms(1) m] length_module_init
    by auto
qed

text \<open>An order added in mock mode to the state of the freshly loaded module.\<close>

theorem mock_mutation_keeps_orders_witness:
  "useMock example_mock \<and> is_mutation (AddOrder ''{}'')
   \<and> succeeded (fst (perform (example_env ''https:'' (Rejected (Exception ''TypeError'' ''Failed to fetch'')))
                      example_mock (AddOrder ''{}'') example_world))
   \<and> MOCK_ORDERS (snd (perform (example_env ''https:'' (Rejected (Exception ''TypeError'' ''Failed to fetch'')))
                         example_mock (AddOrder ''{}'') example_world)) = MOCK_ORDERS example_world
   \<and> length (MOCK_ORDERS (snd (perform (example_env ''https:'' (Rejected (Exception ''TypeError'' ''Failed to fetch'')))
                         example_mock (AddOrder ''{}'') example_world))) = 45"
proof -
  have m: "useMock example_mock" by (simp add: example_mock_def)
  have i: "is_mutation (AddOrder ''{}'')" by simp
  note t = mock_mutation_keeps_orders [OF m i, of
        "example_env ''https:'' (Rejected (Exception ''TypeError'' ''Failed to fetch''))" example_world]
  have "length (MOCK_ORDERS (snd (perform
          (example_env ''https:'' (Rejected (Exception ''TypeError'' ''Failed to fetch'')))
          example_mock (AddOrder ''{}'') example_world))) = 45"
    using t example_world_def by blast
  then show ?thesis
    using m i t by blast
qed

section \<open>The claims about mock mode\<close>

text \<open>
  Claim C1. In mock mode \<^verbatim>\<open>getOrders\<close> answers with a page of orders, and every order of
  the page is one of the synthetic orders that passes all the filters supplied at once:
  the search test when a search is given, equality of \<^verbatim>\<open>delivery_partner\<close> with the partner
  when one is given, equality of \<^verbatim>\<open>latest_status\<close> with the status when one is given. The
  two equalities are equalities of strings, so they distinguish upper and lower case.
  This holds for every number passed as the page. Nothing else decides: with fewer than
  \<open>2^32\<close> synthetic orders, as an array has, an order is returned on some page exactly when
  it is a synthetic order that passes the three tests together.
\<close>

theorem mock_orders_match_all_filters:
  assumes "useMock st"
  shows "(\<exists>r. fst (getOrders ev st page search partner status' w) = Inr (Orders r)
           \<and> (\<forall>o'\<in>set (orders r).
                 o' \<in> set (MOCK_ORDERS w)
               \<and> (search \<noteq> [] \<longrightarrow> search_hit (toLowerCase search) o')
               \<and> (partner \<noteq> [] \<longrightarrow> delivery_partner o' = partner)
               \<and> (status' \<noteq> [] \<longrightarrow> latest_status o' = status')))
       \<and> (length (MOCK_ORDERS w) < 2 ^ 32 \<longrightarrow>
            (\<forall>o'. (\<exists>p. o' \<in> set (orders_of (fst (getOrders ev st (Integer p) search partner status' w))))
              \<longleftrightarrow> o' \<in> set (MOCK_ORDERS w)
                \<and> (search = [] \<or> search_hit (toLowerCase search) o')
                \<and> (partner = [] \<or> delivery_partner o' = partner)
                \<and> (status' = [] \<or> latest_status o' = status')))"
proof -
  let ?F = "filter (matches search partner status') (MOCK_ORDERS w)"
  let ?r = "paginate ?F (page_read page)"
  have r: "fst (getOrders ev st page search partner status' w) = Inr (Orders ?r)"
    by (rule getOrders_mock_read [OF assms])
  have a: "\<forall>o'\<in>set (orders ?r).
                 o' \<in> set (MOCK_ORDERS w)
               \<and> (search \<noteq> [] \<longrightarrow> search_hit (toLowerCase search) o')
               \<and> (partner \<noteq> [] \<longrightarrow> delivery_partner o' = partner)
               \<and> (status' \<noteq> [] \<longrightarrow> latest_status o' = status')"
  proof
    fix o' assume "o' \<in> set (orders ?r)"
    then have "o' \<in> set ?F"
      using set_orders_paginate [of ?F "page_read page"] by (rule set_mp [rotated])
    then have "o' \<in> set (MOCK_ORDERS w)" "matches search partner status' o'" by simp_all
    then show "o' \<in> set (MOCK_ORDERS w)
               \<and> (search \<noteq> [] \<longrightarrow> search_hit (toLowerCase search) o')
               \<and> (partner \<noteq> [] \<longrightarrow> delivery_partner o' = partner)
               \<and> (status' \<noteq> [] \<longrightarrow> latest_status o' = status')"
      unfolding matches_def by blast
  qed
  have b: "length (MOCK_ORDERS w) < 2 ^ 32 \<longrightarrow>
            (\<forall>o'. (\<exists>p. o' \<in> set (orders_of (fst (getOrders ev st (Integer p) search partner status' w))))
              \<longleftrightarrow> o' \<in> set (MOCK_ORDERS w)
                \<and> (search = [] \<or> search_hit (toLowerCase search) o')
                \<and> (partner = [] \<or> delivery_partner o' = partner)
                \<and> (status' = [] \<or> latest_status o' = status'))"
  proof
    assume len: "length (MOCK_ORDERS w) < 2 ^ 32"
    show "\<forall>o'. (\<exists>p. o' \<in> set (orders_of (fst (getOrders ev st (Integer p) search partner status' w))))
              \<longleftrightarrow> o' \<in> set (MOCK_ORDERS w)
                \<and> (search = [] \<or> search_hit (toLowerCase search) o')
                \<and> (partner = [] \<or> delivery_partner o' = partner)
                \<and> (status' = [] \<or> latest_status o' = status')"
      unfolding returned_on_some_page [OF assms len] matches_def by (rule allI) (rule refl)
  qed
  show ?thesis
    by (rule conjI, rule exI [of _ ?r], rule conjI [OF r a], rule b)
qed

text \<open>The second page of the orders of RedX that are delivered and match a search.\<close>

theorem mock_orders_match_all_filters_witness:
  "useMock example_mock
   \<and> (\<exists>r. fst (getOrders (example_env ''https:'' (Rejected (Exception ''TypeError'' ''Failed to fetch'')))
                example_mock (Integer 2) ''customer'' ''RedX'' ''Delivered'' example_world) = Inr (Orders r)
          \<and> (\<forall>o'\<in>set (orders r).
                 o' \<in> set (MOCK_ORDERS example_world)
               \<and> (''customer'' \<noteq> [] \<longrightarrow> search_hit (toLowerCase ''customer'') o')
               \<and> (''RedX'' \<noteq> [] \<longrightarrow> delivery_partner o' = ''RedX'')
               \<and> (''Delivered'' \<noteq> [] \<longrightarrow> latest_status o' = ''Delivered'')))
   \<and> length (MOCK_ORDERS example_world) < 2 ^ 32
   \<and> (\<forall>o'. (\<exists>p. o' \<in> set (orders_of (fst (getOrders
                  (example_env ''https:'' (Rejected (Exception ''TypeError'' ''Failed to fetch'')))
                  example_mock (Integer p) ''customer'' ''RedX'' ''Delivered'' example_world))))
              \<longleftrightarrow> o' \<in> set (MOCK_ORDERS example_world)
                \<and> (''customer'' = [] \<or> search_hit (toLowerCase ''customer'') o')
                \<and> (''RedX'' = [] \<or> delivery_partner o' = ''RedX'')
                \<and> (''Delivered'' = [] \<or> latest_status o' = ''Delivered''))"
proof -
  have m: "useMock example_mock" by (simp add: example_mock_def)
  have l: "length (MOCK_ORDERS example_world) < 2 ^ 32"
    by (simp add: example_world_def length_module_init)
  note t = mock_orders_match_all_filters [OF m,
      where ev = "example_env ''https:'' (Rejected (Exception ''TypeError'' ''Failed to fetch''))"
        and page = "Integer 2" and search = "''customer''" and partner = "''RedX''"
        and status' = "''Delivered''" and w = example_world]
  show ?thesis
    by (rule conjI [OF m conjI [OF conjunct1 [OF t] conjI [OF l mp [OF conjunct2 [OF t] l]]]])
qed

text \<open>
  Claim C2. In mock mode, with \<open>F\<close> the synthetic orders that match the filters, in their
  order: every page reports \<open>length F\<close> as \<^verbatim>\<open>total_items\<close>, the ceiling of
  \<open>length F / 20\<close> but at least 1 as \<^verbatim>\<open>total_pages\<close>, and holds at most 20 orders; with
  fewer than \<open>2^32\<close> synthetic orders, as an array has, the pages 1 to \<^verbatim>\<open>total_pages\<close>, one
  after the other, are \<open>F\<close> itself.
\<close>

theorem mock_pagination:
  assumes "useMock st"
    and "F = filter (matches search partner status') (MOCK_ORDERS w)"
  shows "(\<forall>page. \<exists>r. fst (getOrders ev st page search partner status' w) = Inr (Orders r)
            \<and> total_items (pagination r) = length F
            \<and> total_pages (pagination r) = max 1 \<lceil>real (length F) / 20\<rceil>
            \<and> length (orders r) \<le> 20)
       \<and> (length (MOCK_ORDERS w) < 2 ^ 32 \<longrightarrow>
            concat (map (\<lambda>p. orders_of (fst (getOrders ev st (Integer p) search partner status' w)))
                     [1..max 1 \<lceil>real (length F) / 20\<rceil>]) = F)"
proof -
  have pages: "length (MOCK_ORDERS w) < 2 ^ 32 \<longrightarrow>
            concat (map (\<lambda>p. orders_of (fst (getOrders ev st (Integer p) search partner status' w)))
                     [1..max 1 \<lceil>real (length F) / 20\<rceil>]) = F"
    unfolding assms(2) max_ceil_20 using concat_all_pages_mock [OF assms(1)] by (rule impI)
  have each: "\<forall>page. \<exists>r. fst (getOrders ev st page search partner status' w) = Inr (Orders r)
            \<and> total_items (pagination r) = length F
            \<and> total_pages (pagination r) = max 1 \<lceil>real (length F) / 20\<rceil>
            \<and> length (orders r) \<le> 20"
    unfolding getOrders_mock_read [OF assms(1)] assms(2) [symmetric]
    by (simp add: paginate_fields total_pages_paginate max_ceil_20 length_orders_paginate)
  show ?thesis
    by (rule conjI [OF each pages])
qed

text \<open>Without filters the three pages of the loaded module give back its 45 orders.\<close>

theorem mock_pagination_witness:
  "useMock example_mock
   \<and> MOCK_ORDERS example_world = filter (matches '''' '''' '''') (MOCK_ORDERS example_world)
   \<and> length (MOCK_ORDERS example_world) < 2 ^ 32
   \<and> concat (map (\<lambda>p. orders_of (fst (getOrders
                 (example_env ''https:'' (Rejected (Exception ''TypeError'' ''Failed to fetch'')))
                 example_mock (Integer p) '''' '''' '''' example_world))) [1..3])
       = MOCK_ORDERS example_world"
proof -
  have m: "useMock example_mock" by (simp add: example_mock_def)
  have f: "MOCK_ORDERS example_world = filter (matches '''' '''' '''') (MOCK_ORDERS example_world)"
    by (simp add: matches_def)
  have n: "length (MOCK_ORDERS example_world) = 45"
    by (simp add: example_world_def length_module_init)
  have l: "length (MOCK_ORDERS example_world) < 2 ^ 32"
    by (simp add: n)
  have k: "max 1 \<lceil>real (length (MOCK_ORDERS example_world)) / 20\<rceil> = 3"
    by (simp add: n)
  note t = mp [OF conjunct2 [OF mock_pagination [OF m f,
        of "example_env ''https:'' (Rejected (Exception ''TypeError'' ''Failed to fetch''))"]] l]
  have c: "concat (map (\<lambda>p. orders_of (fst (getOrders
                 (example_env ''https:'' (Rejected (Exception ''TypeError'' ''Failed to fetch'')))
                 example_mock (Integer p) '''' '''' '''' example_world))) [1..3])
       = MOCK_ORDERS example_world"
    using t unfolding k .
  show ?thesis
    by (intro conjI m f l c)
qed

text \<open>
  Claim C9, as amended. In mock mode, an integer page \<open>p\<close> with \<open>1 \<le> p < 10^21\<close> that
  starts at or after the end of the matching orders (\<open>(p - 1) * 20 \<ge> length F\<close>) is
  answered without an error: the page is empty, \<^verbatim>\<open>current_page\<close> is \<open>p\<close> itself, and
  \<^verbatim>\<open>total_pages\<close> and \<^verbatim>\<open>total_items\<close> are those of \<open>F\<close>.
\<close>

theorem mock_page_beyond_the_end:
  assumes "useMock st"
    and "F = filter (matches search partner status') (MOCK_ORDERS w)"
    and "1 \<le> p" and "p < 10 ^ 21" and "int (length F) \<le> (p - 1) * 20"
  shows "\<exists>r. fst (getOrders ev st (Integer p) search partner status' w) = Inr (Orders r)
           \<and> orders r = []
           \<and> current_page (pagination r) = Some p
           \<and> total_pages (pagination r) = max 1 \<lceil>real (length F) / 20\<rceil>
           \<and> total_items (pagination r) = length F"
proof -
  have small: "\<bar>p\<bar> < 10 ^ 21" using assms(3,4) by simp
  have "orders (paginate F (Some p)) = []"
    unfolding orders_paginate slice_page [OF assms(3)] using assms(5) by simp
  then show ?thesis
    unfolding getOrders_mock_paginate [OF assms(1) small] assms(2) [symmetric]
    by (simp add: paginate_fields total_pages_paginate max_ceil_20)
qed

text \<open>Page 4 of the 45 orders.\<close>

theorem mock_page_beyond_the_end_witness:
  "useMock example_mock
   \<and> MOCK_ORDERS example_world = filter (matches '''' '''' '''') (MOCK_ORDERS example_world)
   \<and> (1::int) \<le> 4 \<and> (4::int) < 10 ^ 21
   \<and> int (length (MOCK_ORDERS example_world)) \<le> (4 - 1) * 20
   \<and> (\<exists>r. fst (getOrders (example_env ''https:'' (Rejected (Exception ''TypeError'' ''Failed to fetch'')))
                 example_mock (Integer 4) '''' '''' '''' example_world) = Inr (Orders r)
          \<and> orders r = [] \<and> current_page (pagination r) = Some 4
          \<and> total_pages (pagination r) = 3 \<and> total_items (pagination r) = 45)"
proof -
  have m: "useMock example_mock" by (simp add: example_mock_def)
  have f: "MOCK_ORDERS example_world = filter (matches '''' '''' '''') (MOCK_ORDERS example_world)"
    by (simp add: matches_def)
  have l: "length (MOCK_ORDERS example_world) = 45"
    by (simp add: example_world_def length_module_init)
  have p: "(1::int) \<le> 4" "(4::int) < 10 ^ 21"
    "int (length (MOCK_ORDERS example_world)) \<le> (4 - 1) * 20"
    by (simp_all add: l)
  show ?thesis
    using m f p mock_page_beyond_the_end [OF m f p,
        of "example_env ''https:'' (Rejected (Exception ''TypeError'' ''Failed to fetch''))"]
    by (simp add: l)
qed

text \<open>The page \<open>10^21\<close> is printed as \<^verbatim>\<open>1e+21\<close> and read back as 1.\<close>

lemma page_read_1e21: "page_read (Integer (10 ^ 21)) = Some 1"
  by (simp add: page_read_def or_default_def exponent_text_def string_of_nat.simps digit_char_def
      parseInt_def Let_def is_js_space_def startsWith_def digit_val_def digits_val_def)

text \<open>
  Claim C9 as it is stated, for every page number from 1 on, fails at the page \<open>10^21\<close>.
  It lies far beyond the 45 orders, but \<^verbatim>\<open>toString\<close> prints it as \<^verbatim>\<open>1e+21\<close>, of which
  \<^verbatim>\<open>parseInt\<close> reads the 1: the answer is the first page with its 20 orders, and
  \<^verbatim>\<open>current_page\<close> is 1.
\<close>

theorem mock_page_beyond_the_end_counterexample:
  "(1::int) \<le> 10 ^ 21
   \<and> int (length (filter (matches [] [] []) (MOCK_ORDERS example_world))) \<le> (10 ^ 21 - 1) * 20
   \<and> fst (getOrders (example_env ''https:'' (Rejected (Exception ''TypeError'' ''Failed to fetch'')))
            example_mock (Integer (10 ^ 21)) [] [] [] example_world)
       = Inr (Orders (paginate (MOCK_ORDERS example_world) (Some 1)))
   \<and> length (orders (paginate (MOCK_ORDERS example_world) (Some 1))) = 20
   \<and> current_page (pagination (paginate (MOCK_ORDERS example_world) (Some 1))) = Some 1
   \<and> Some (1::int) \<noteq> Some (10 ^ 21)"
proof -
  have m: "useMock example_mock" by (simp add: example_mock_def)
  have f: "filter (matches [] [] []) (MOCK_ORDERS example_world) = MOCK_ORDERS example_world"
    by (simp add: matches_def)
  have l: "length (MOCK_ORDERS example_world) = 45"
    by (simp add: example_world_def length_module_init)
  have g: "fst (getOrders (example_env ''https:'' (Rejected (Exception ''TypeError'' ''Failed to fetch'')))
            example_mock (Integer (10 ^ 21)) [] [] [] example_world)
       = Inr (Orders (paginate (MOCK_ORDERS example_world) (Some 1)))"
    unfolding getOrders_mock_read [OF m] f page_read_1e21 ..
  have o: "length (orders (paginate (MOCK_ORDERS example_world) (Some 1))) = 20"
    unfolding orders_paginate using slice_page [of 1 "MOCK_ORDERS example_world"] by (simp add: l)
  show ?thesis
    unfolding f using g o by (simp add: l paginate_fields)
qed

text \<open>The phone is compared as it is, not in lower case: on an order whose phone had a
  capital letter the search test would miss it. No generated phone has a letter.\<close>

lemma search_hit_phone_as_it_is:
  "\<not> search_hit (toLowerCase ''a'')
        ((mock_order 0 r)\<lparr> tracking_code := '''', buyer_name := '''', phone := ''017A'' \<rparr>)
   \<and> toLowerCase ''017A'' = ''017'' @ toLowerCase ''a'' @ ''''"
  by (simp add: search_hit_def toLowerCase_def startsWith_def)

text \<open>
  Claim C3. In mock mode, for every search string and every order of the generated data
  set: the search test of the filter holds if and only if the search string in lower case
  is a contiguous piece of the buyer name in lower case, or of the phone in lower case, or
  of the tracking code in lower case; and with fewer than \<open>2^32\<close> orders, as an array has,
  the same decides whether \<^verbatim>\<open>getOrders\<close> with that search and no other filter returns the
  order on some page.
\<close>

theorem search_is_case_insensitive_substring:
  assumes "useMock st"
    and "MOCK_ORDERS w = generateMockOrders count rnd"
    and "o' \<in> set (MOCK_ORDERS w)"
  shows "(length (MOCK_ORDERS w) < 2 ^ 32 \<longrightarrow>
          ((\<exists>p. o' \<in> set (orders_of (fst (getOrders ev st (Integer p) search [] [] w))))
            \<longleftrightarrow> (\<exists>pre post. toLowerCase (buyer_name o') = pre @ toLowerCase search @ post)
              \<or> (\<exists>pre post. toLowerCase (phone o') = pre @ toLowerCase search @ post)
              \<or> (\<exists>pre post. toLowerCase (tracking_code o') = pre @ toLowerCase search @ post)))
       \<and> (search_hit (toLowerCase search) o'
          \<longleftrightarrow> (\<exists>pre post. toLowerCase (buyer_name o') = pre @ toLowerCase search @ post)
            \<or> (\<exists>pre post. toLowerCase (phone o') = pre @ toLowerCase search @ post)
            \<or> (\<exists>pre post. toLowerCase (tracking_code o') = pre @ toLowerCase search @ post))"
proof -
  obtain i r where o': "o' = mock_order i r"
    using assms(2,3) generated_order by metis
  have hit: "search_hit (toLowerCase search) o'
          \<longleftrightarrow> (\<exists>pre post. toLowerCase (buyer_name o') = pre @ toLowerCase search @ post)
            \<or> (\<exists>pre post. toLowerCase (phone o') = pre @ toLowerCase search @ post)
            \<or> (\<exists>pre post. toLowerCase (tracking_code o') = pre @ toLowerCase search @ post)"
    unfolding o' by (rule search_hit_generated)
  have "includes_str s []" for s
    by (cases s) (simp_all add: startsWith_def)
  then have empty: "search_hit [] o'"
    by (simp add: search_hit_def)
  have ms: "matches search [] [] o' \<longleftrightarrow> search_hit (toLowerCase search) o'"
    using empty by (auto simp: matches_def toLowerCase_def)
  have ret: "(\<exists>p. o' \<in> set (orders_of (fst (getOrders ev st (Integer p) search [] [] w))))
          \<longleftrightarrow> search_hit (toLowerCase search) o'"
    if "length (MOCK_ORDERS w) < 2 ^ 32"
    unfolding returned_on_some_page [OF assms(1) that] using assms(3) ms by simp
  show ?thesis using hit ret by simp
qed

text \<open>The search \<^verbatim>\<open>CUST\<close> finds the first order, bought by \<^verbatim>\<open>Customer 1\<close>.\<close>

theorem search_is_case_insensitive_substring_witness:
  "useMock example_mock
   \<and> MOCK_ORDERS example_world = generateMockOrders 45 example_draws
   \<and> mock_order 0 (\<lambda>j. example_draws (7 * 0 + j)) \<in> set (MOCK_ORDERS example_world)
   \<and> length (MOCK_ORDERS example_world) < 2 ^ 32
   \<and> toLowerCase (buyer_name (mock_order 0 (\<lambda>j. example_draws (7 * 0 + j)))) = [] @ toLowerCase ''CUST'' @ ''omer 1''
   \<and> (\<exists>p. mock_order 0 (\<lambda>j. example_draws (7 * 0 + j))
         \<in> set (orders_of (fst (getOrders
               (example_env ''https:'' (Rejected (Exception ''TypeError'' ''Failed to fetch'')))
               example_mock (Integer p) ''CUST'' [] [] example_world))))"
proof -
  let ?o = "mock_order 0 (\<lambda>j. example_draws (7 * 0 + j))"
  have m: "useMock example_mock" by (simp add: example_mock_def)
  have g: "MOCK_ORDERS example_world = generateMockOrders 45 example_draws"
    by (simp add: example_world_def module_init_def)
  have "?o \<in> (\<lambda>i. mock_order i (\<lambda>j. example_draws (7 * i + j))) ` {0..<45}"
    by (rule imageI) simp
  then have i: "?o \<in> set (MOCK_ORDERS example_world)"
    unfolding g generateMockOrders_def by simp
  have l: "length (MOCK_ORDERS example_world) < 2 ^ 32"
    by (simp add: example_world_def length_module_init)
  have b: "toLowerCase (buyer_name ?o) = [] @ toLowerCase ''CUST'' @ ''omer 1''"
    by (simp add: mock_order_def toLowerCase_def string_of_nat.simps digit_char_def)
  note t = search_is_case_insensitive_substring [OF m g i,
        of "example_env ''https:'' (Rejected (Exception ''TypeError'' ''Failed to fetch''))" "''CUST''"]
  have ex: "\<exists>pre post. toLowerCase (buyer_name ?o) = pre @ toLowerCase ''CUST'' @ post"
    using b by (intro exI)
  have p: "\<exists>p. ?o \<in> set (orders_of (fst (getOrders
               (example_env ''https:'' (Rejected (Exception ''TypeError'' ''Failed to fetch'')))
               example_mock (Integer p) ''CUST'' [] [] example_world)))"
    by (rule iffD2 [OF mp [OF conjunct1 [OF t] l]], rule disjI1, rule ex)
  show ?thesis
    by (intro conjI m g i l b p)
qed

text \<open>
  Claim C10. Every generated order has one of the four partners RedX, Steadfast, Pathao,
  Paperfly and one of the five statuses Picked, In Transit, Out for Delivery, Delivered,
  Cancelled. The mock configuration lists two more partners, E-Courier and In-House, and
  one more status, Returned; a \<^verbatim>\<open>getOrders\<close> in mock mode that filters by one of them
  answers with no order and \<^verbatim>\<open>total_items\<close> 0.
\<close>

theorem generated_partners_and_statuses:
  assumes "useMock st"
    and "MOCK_ORDERS w = generateMockOrders count rnd"
  shows "(\<forall>o'\<in>set (MOCK_ORDERS w).
            delivery_partner o' \<in> {''RedX'', ''Steadfast'', ''Pathao'', ''Paperfly''}
          \<and> latest_status o' \<in> {''Picked'', ''In Transit'', ''Out for Delivery'', ''Delivered'', ''Cancelled''})
       \<and> (partner \<in> {''E-Courier'', ''In-House''} \<or> status' = ''Returned'' \<longrightarrow>
            (\<exists>r. fst (getOrders ev st page search partner status' w) = Inr (Orders r)
                \<and> orders r = [] \<and> total_items (pagination r) = 0))
       \<and> set (delivery_partners MOCK_CONFIG) - {''RedX'', ''Steadfast'', ''Pathao'', ''Paperfly''}
           = {''E-Courier'', ''In-House''}
       \<and> set (quick_statuses MOCK_CONFIG)
           - {''Picked'', ''In Transit'', ''Out for Delivery'', ''Delivered'', ''Cancelled''}
           = {''Returned''}"
proof -
  have vals: "\<forall>o'\<in>set (MOCK_ORDERS w).
            delivery_partner o' \<in> {''RedX'', ''Steadfast'', ''Pathao'', ''Paperfly''}
          \<and> latest_status o' \<in> {''Picked'', ''In Transit'', ''Out for Delivery'', ''Delivered'', ''Cancelled''}"
  proof
    fix o' assume "o' \<in> set (MOCK_ORDERS w)"
    then have "o' \<in> set (generateMockOrders count rnd)" by (simp only: assms(2))
    then obtain i r where "o' = mock_order i r" by (rule generated_order)
    then show "delivery_partner o' \<in> {''RedX'', ''Steadfast'', ''Pathao'', ''Paperfly''}
          \<and> latest_status o' \<in> {''Picked'', ''In Transit'', ''Out for Delivery'', ''Delivered'', ''Cancelled''}"
      using mock_order_values [of i r] by (simp add: partners_def statuses_def)
  qed
  have none: "filter (matches search partner status') (MOCK_ORDERS w) = []"
    if "partner \<in> {''E-Courier'', ''In-House''} \<or> status' = ''Returned''"
    unfolding filter_empty_conv
  proof
    fix o' assume "o' \<in> set (MOCK_ORDERS w)"
    then show "\<not> matches search partner status' o'"
      using bspec [OF vals, of o'] that by (auto simp: matches_def)
  qed
  have nil: "orders (paginate [] (page_read page)) = []"
    "total_items (pagination (paginate [] (page_read page))) = 0"
    by (simp_all add: orders_paginate_Nil paginate_fields)
  have empty: "partner \<in> {''E-Courier'', ''In-House''} \<or> status' = ''Returned'' \<longrightarrow>
            (\<exists>r. fst (getOrders ev st page search partner status' w) = Inr (Orders r)
                \<and> orders r = [] \<and> total_items (pagination r) = 0)"
  proof
    assume "partner \<in> {''E-Courier'', ''In-House''} \<or> status' = ''Returned''"
    then have "fst (getOrders ev st page search partner status' w)
        = Inr (Orders (paginate [] (page_read page)))"
      unfolding getOrders_mock_read [OF assms(1)] by (simp only: none)
    then show "\<exists>r. fst (getOrders ev st page search partner status' w) = Inr (Orders r)
                \<and> orders r = [] \<and> total_items (pagination r) = 0"
      using nil by (intro exI conjI)
  qed
  have config: "set (delivery_partners MOCK_CONFIG) - {''RedX'', ''Steadfast'', ''Pathao'', ''Paperfly''}
           = {''E-Courier'', ''In-House''}"
      "set (quick_statuses MOCK_CONFIG)
           - {''Picked'', ''In Transit'', ''Out for Delivery'', ''Delivered'', ''Cancelled''}
           = {''Returned''}"
    by (auto simp: MOCK_CONFIG_def)
  show ?thesis
    by (rule conjI [OF vals conjI [OF empty conjI [OF config(1) config(2)]]])
qed

text \<open>The loaded module has no order of E-Courier.\<close>

theorem generated_partners_and_statuses_witness:
  "useMock example_mock
   \<and> MOCK_ORDERS example_world = generateMockOrders 45 example_draws
   \<and> (\<exists>r. fst (getOrders (example_env ''https:'' (Rejected (Exception ''TypeError'' ''Failed to fetch'')))
                 example_mock (Integer 1) ''customer'' ''E-Courier'' ''Delivered'' example_world) = Inr (Orders r)
          \<and> orders r = [] \<and> total_items (pagination r) = 0)"
proof -
  have m: "useMock example_mock" by (simp add: example_mock_def)
  have g: "MOCK_ORDERS example_world = generateMockOrders 45 example_draws"
    by (simp add: example_world_def module_init_def)
  note t = generated_partners_and_statuses [OF m g,
      where partner = "''E-Courier''" and status' = "''Delivered''" and page = "Integer 1"
        and search = "''customer''"
        and ev = "example_env ''https:'' (Rejected (Exception ''TypeError'' ''Failed to fetch''))"]
  have "''E-Courier'' \<in> {''E-Courier'', ''In-House''} \<or> ''Delivered'' = ''Returned''" by simp
  then have e: "\<exists>r. fst (getOrders (example_env ''https:'' (Rejected (Exception ''TypeError'' ''Failed to fetch'')))
                 example_mock (Integer 1) ''customer'' ''E-Courier'' ''Delivered'' example_world) = Inr (Orders r)
          \<and> orders r = [] \<and> total_items (pagination r) = 0"
    by (rule mp [OF conjunct1 [OF conjunct2 [OF t]], rotated])
  show ?thesis
    by (intro conjI m g e)
qed

end
